theory Spec2Isabelle
  imports Main "HOL-Library.Word" "HOL-Library.Sublist"
begin

section \<open>Node readiness and consistency coordination of the ovn-kubernetes node agent\<close>

text \<open>
  A shallow embedding of the parts of
  \<^verbatim>\<open>go-controller/pkg/node/default_node_network_controller.go\<close> and
  \<^verbatim>\<open>go-controller/pkg/node/heartbeat_dpu.go\<close> that decide the zone-match wait,
  the interconnect upgrade barrier, the two conntrack reconciliation passes and the
  heartbeat validity check.

  Conventions. A Go \<^verbatim>\<open>error\<close> that the code only tests against \<^verbatim>\<open>nil\<close> is a
  \<open>string option\<close> (\<open>None\<close> is \<^verbatim>\<open>nil\<close>). A call that leaves the function by a
  run-time panic (a nil pointer dereference) or by \<^verbatim>\<open>klog.Exitf\<close> is a value of the
  result type. Calls into the cluster, the southbound database and the kernel are fields
  of an environment record; the requests the code sends out are returned as a list, in
  program order.
\<close>

subsection \<open>Strings and bytes\<close>

type_synonym byte = "8 word"

text \<open>\<^verbatim>\<open>strings.Contains(s, substr)\<close>: \<open>substr\<close> occurs in \<open>s\<close> as a contiguous run.\<close>

fun strings_Contains :: "string \<Rightarrow> string \<Rightarrow> bool" where
  "strings_Contains [] substr = (substr = [])"
| "strings_Contains (c # s) substr = (prefix substr (c # s) \<or> strings_Contains s substr)"

text \<open>\<^verbatim>\<open>strings.Split(s, ",")\<close>: the fields between the commas; one empty field for
  the empty string.\<close>

fun splitOn :: "char \<Rightarrow> string \<Rightarrow> string \<Rightarrow> string list" where
  "splitOn sep cur [] = [rev cur]"
| "splitOn sep cur (c # s) =
     (if c = sep then rev cur # splitOn sep [] s else splitOn sep (c # cur) s)"

definition strings_Split :: "string \<Rightarrow> char \<Rightarrow> string list" where
  "strings_Split s sep = splitOn sep [] s"

text \<open>\<^verbatim>\<open>[]byte(s)\<close>.\<close>

definition bytesOf :: "string \<Rightarrow> byte list" where
  "bytesOf s = map (\<lambda>c. of_nat (of_char c)) s"

subsection \<open>Results\<close>

text \<open>How a call ends: it returns, or the goroutine panics on a nil pointer.\<close>

datatype 'a outcome = Returned 'a | Panicked

text \<open>\<^verbatim>\<open>apierrors.NewAggregate\<close>: \<^verbatim>\<open>nil\<close> for an empty list, else one error
  holding them all.\<close>

datatype 'e aggregate = Aggregate "'e list"

definition NewAggregate :: "'e list \<Rightarrow> 'e aggregate option" where
  "NewAggregate errs = (if errs = [] then None else Some (Aggregate errs))"

subsection \<open>Conntrack requests\<close>

datatype protocol = ProtocolTCP | ProtocolUDP | ProtocolSCTP

datatype filter_type = ConntrackOrigDstIP | ConntrackReplyAnyIP

text \<open>One call of \<^verbatim>\<open>util.DeleteConntrack\<close> or \<^verbatim>\<open>util.DeleteConntrackServicePort\<close>:
  the IP, the port, the protocol, the IP filter type and the label allow-list
  (\<open>None\<close> is the \<^verbatim>\<open>nil\<close> the service-port variant is given).\<close>

record ct_request =
  ct_ip :: string
  ct_port :: "32 word"
  ct_protocol :: protocol
  ct_filter :: filter_type
  ct_labels :: "byte list list option"

subsection \<open>Endpoint-slice conntrack reconciliation\<close>

record endpoint_port =
  port_Protocol :: "protocol option"
  port_Port :: "32 word option"

record endpoint =
  ep_Addresses :: "string list"

record endpoint_slice =
  es_Namespace :: string
  es_Name :: string
  es_Ports :: "endpoint_port list"
  es_Endpoints :: "endpoint list"

record service =
  svc_Namespace :: string
  svc_Name :: string
  svc_TypeHasClusterIP :: bool
  svc_ClusterIPSet :: bool

text \<open>An error of a lister: \<^verbatim>\<open>kerrors.IsNotFound\<close> holds of \<open>NotFound\<close> only.\<close>

datatype kube_error = NotFound | OtherError string

definition IsNotFound :: "kube_error \<Rightarrow> bool" where
  "IsNotFound e = (e = NotFound)"

text \<open>
  What \<^verbatim>\<open>reconcileConntrackUponEndpointSliceEvents\<close> calls outside this file:
  the helpers of package \<^verbatim>\<open>util\<close> and of \<^verbatim>\<open>k8s.io/utils/net\<close>, the service
  lister and the kernel. \<open>ParseIPSloppyString ip\<close> is
  \<^verbatim>\<open>utilnet.ParseIPSloppy(ip).String()\<close>.
\<close>

record es_env =
  ServiceNamespacedNameFromEndpointSlice :: "endpoint_slice \<Rightarrow> string + (string \<times> string)"
  GetService :: "string \<Rightarrow> string \<Rightarrow> kube_error + service"
  ParseIPSloppyString :: "string \<Rightarrow> string"
  DoesEndpointSliceContainEndpoint ::
    "endpoint_slice \<Rightarrow> string \<Rightarrow> 32 word \<Rightarrow> protocol \<Rightarrow> service option \<Rightarrow> bool"
  DeleteConntrackServicePort :: "ct_request \<Rightarrow> string option"

datatype es_error =
  CannotReconcile string
  | ServiceRetrievalFailed string string kube_error
  | EsAggregate "string aggregate"

text \<open>The result of a pass: the deletion requests issued, the requests whose failure
  was logged with \<^verbatim>\<open>klog.Errorf\<close>, and how the call ended.\<close>

record 'r pass_result =
  issued :: "ct_request list"
  logged :: "(ct_request \<times> string) list"
  ending :: 'r

text \<open>The innermost loop, over the addresses of one old endpoint.
  \<^verbatim>\<open>*oldPort.Port\<close> is read for every address, so a nil port panics at the first one.
  A failed deletion is logged and the loop goes on; nothing is appended to
  \<^verbatim>\<open>errors\<close>.\<close>

definition servicePortRequest :: "string \<Rightarrow> 32 word \<Rightarrow> protocol \<Rightarrow> ct_request" where
  "servicePortRequest ip p proto =
     \<lparr>ct_ip = ip, ct_port = p, ct_protocol = proto,
      ct_filter = ConntrackReplyAnyIP, ct_labels = None\<rparr>"

text \<open>The guard \<^verbatim>\<open>newEndpointSlice != nil && util.DoesEndpointSliceContainEndpoint(...)\<close>.\<close>

definition stillInNewSlice ::
  "es_env \<Rightarrow> endpoint_slice option \<Rightarrow> service option \<Rightarrow> protocol \<Rightarrow> 32 word \<Rightarrow> string \<Rightarrow> bool" where
  "stillInNewSlice env newES svc proto p oldIPStr =
     (case newES of
        None \<Rightarrow> False
      | Some n \<Rightarrow> DoesEndpointSliceContainEndpoint env n oldIPStr p proto svc)"

fun addressLoop ::
  "es_env \<Rightarrow> endpoint_slice option \<Rightarrow> service option \<Rightarrow> protocol \<Rightarrow> 32 word option \<Rightarrow>
   string list \<Rightarrow> ct_request list \<times> (ct_request \<times> string) list \<times> bool" where
  "addressLoop env newES svc proto port [] = ([], [], True)"
| "addressLoop env newES svc proto port (oldIP # rest) =
     (case port of
        None \<Rightarrow> ([], [], False)
      | Some p \<Rightarrow>
          (let oldIPStr = ParseIPSloppyString env oldIP in
           if stillInNewSlice env newES svc proto p oldIPStr
           then addressLoop env newES svc proto port rest
           else
             (let req = servicePortRequest oldIPStr p proto;
                  lg = (case DeleteConntrackServicePort env req of
                          None \<Rightarrow> [] | Some e \<Rightarrow> [(req, e)])
              in (case addressLoop env newES svc proto port rest of
                    (reqs, lgs, ok) \<Rightarrow> (req # reqs, lg @ lgs, ok)))))"

fun endpointLoop ::
  "es_env \<Rightarrow> endpoint_slice option \<Rightarrow> service option \<Rightarrow> protocol \<Rightarrow> 32 word option \<Rightarrow>
   endpoint list \<Rightarrow> ct_request list \<times> (ct_request \<times> string) list \<times> bool" where
  "endpointLoop env newES svc proto port [] = ([], [], True)"
| "endpointLoop env newES svc proto port (ep # eps) =
     (case addressLoop env newES svc proto port (ep_Addresses ep) of
        (reqs, lgs, ok) \<Rightarrow>
          if ok then
            (case endpointLoop env newES svc proto port eps of
               (reqs', lgs', ok') \<Rightarrow> (reqs @ reqs', lgs @ lgs', ok'))
          else (reqs, lgs, False))"

text \<open>The outer loop, over the ports of the old slice. \<^verbatim>\<open>*oldPort.Protocol\<close> panics
  on a nil protocol; a port that is not UDP is skipped.\<close>

fun portLoop ::
  "es_env \<Rightarrow> endpoint_slice option \<Rightarrow> service option \<Rightarrow> endpoint list \<Rightarrow>
   endpoint_port list \<Rightarrow> ct_request list \<times> (ct_request \<times> string) list \<times> bool" where
  "portLoop env newES svc eps [] = ([], [], True)"
| "portLoop env newES svc eps (oldPort # ports) =
     (case port_Protocol oldPort of
        None \<Rightarrow> ([], [], False)
      | Some proto \<Rightarrow>
          if proto \<noteq> ProtocolUDP then portLoop env newES svc eps ports
          else
            (case endpointLoop env newES svc proto (port_Port oldPort) eps of
               (reqs, lgs, ok) \<Rightarrow>
                 if ok then
                   (case portLoop env newES svc eps ports of
                      (reqs', lgs', ok') \<Rightarrow> (reqs @ reqs', lgs @ lgs', ok'))
                 else (reqs, lgs, False)))"

definition reconcileLoops ::
  "es_env \<Rightarrow> endpoint_slice \<Rightarrow> endpoint_slice option \<Rightarrow> service option \<Rightarrow>
   (es_error option outcome) pass_result" where
  "reconcileLoops env oldES newES svc =
     (let errors = ([] :: string list) in
      case portLoop env newES svc (es_Endpoints oldES) (es_Ports oldES) of
        (reqs, lgs, ok) \<Rightarrow>
          \<lparr>issued = reqs, logged = lgs,
           ending = (if ok then Returned (map_option EsAggregate (NewAggregate errors))
                     else Panicked)\<rparr>)"

definition reconcileConntrackUponEndpointSliceEvents ::
  "es_env \<Rightarrow> endpoint_slice option \<Rightarrow> endpoint_slice option \<Rightarrow>
   (es_error option outcome) pass_result" where
  "reconcileConntrackUponEndpointSliceEvents env oldEndpointSlice newEndpointSlice =
     (case oldEndpointSlice of
        None \<Rightarrow> \<lparr>issued = [], logged = [], ending = Returned None\<rparr>
      | Some oldES \<Rightarrow>
          (case ServiceNamespacedNameFromEndpointSlice env oldES of
             Inl e \<Rightarrow> \<lparr>issued = [], logged = [], ending = Returned (Some (CannotReconcile e))\<rparr>
           | Inr (ns, nm) \<Rightarrow>
               (case GetService env ns nm of
                  Inr svc \<Rightarrow> reconcileLoops env oldES newEndpointSlice (Some svc)
                | Inl err \<Rightarrow>
                    if \<not> IsNotFound err then
                      (case newEndpointSlice of
                         None \<Rightarrow> \<lparr>issued = [], logged = [], ending = Panicked\<rparr>
                       | Some n \<Rightarrow>
                           \<lparr>issued = [], logged = [],
                            ending = Returned (Some (ServiceRetrievalFailed
                                       (es_Namespace n) (es_Name n) err))\<rparr>)
                    else reconcileLoops env oldES newEndpointSlice None)))"

subsection \<open>External-gateway conntrack reconciliation\<close>

record namespace =
  ns_Name :: string
  ns_Annotations :: "string \<Rightarrow> string option"

text \<open>A pod as the code reads it: its names, its node, and the verdicts of
  \<^verbatim>\<open>util.PodScheduled\<close>, \<^verbatim>\<open>util.PodCompleted\<close> and
  \<^verbatim>\<open>util.PodWantsHostNetwork\<close>.\<close>

record pod =
  pod_Namespace :: string
  pod_Name :: string
  pod_NodeName :: string
  pod_Scheduled :: bool
  pod_Completed :: bool
  pod_WantsHostNetwork :: bool

datatype pod_ip_error = ErrNoPodIPFound | PodIPError string

text \<open>
  What \<^verbatim>\<open>syncConntrackForExternalGateways\<close> calls outside this file. The two
  annotation keys are constants of package \<^verbatim>\<open>util\<close>. A \<^verbatim>\<open>sets.Set[string]\<close> is a
  list without repetitions; Go iterates it in no fixed order, and the list fixes one.
  \<open>GetMACAddressFromARP ip\<close> is \<^verbatim>\<open>util.GetMACAddressFromARP(net.ParseIP(ip))\<close>, and
  \<open>GetPodIPsOfNetwork\<close> gives the pod's addresses on the default network as strings,
  with the error returned beside them.
\<close>

record gw_env =
  ExternalGatewayPodIPsAnnotation :: string
  RoutingExternalGWsAnnotation :: string
  GetAdminPolicyBasedExternalRouteIPsForTargetNamespace :: "string \<Rightarrow> string + string list"
  IsIPv6String :: "string \<Rightarrow> bool"
  GetMACAddressFromARP :: "string \<Rightarrow> string + byte list"
  GetPods :: "string \<Rightarrow> string + pod list"
  GetPodIPsOfNetwork :: "pod \<Rightarrow> string list \<times> pod_ip_error option"
  DeleteConntrack :: "ct_request \<Rightarrow> string option"

text \<open>\<^verbatim>\<open>m[key]\<close> on a Go map of strings: the empty string for a missing key.\<close>

definition annotation :: "namespace \<Rightarrow> string \<Rightarrow> string" where
  "annotation ns key = (case ns_Annotations ns key of None \<Rightarrow> [] | Some v \<Rightarrow> v)"

text \<open>\<^verbatim>\<open>set.Insert(items...)\<close>.\<close>

definition setInsert :: "string list \<Rightarrow> string list \<Rightarrow> string list" where
  "setInsert s items = fold List.insert items s"

text \<open>The in-place reversal of the hardware address:
  \<^verbatim>\<open>for i, j := 0, len(hwAddr)-1; i < j; i, j = i+1, j-1 { swap }\<close>.\<close>

function reverseLoop :: "int \<Rightarrow> int \<Rightarrow> 'a list \<Rightarrow> 'a list" where
  "reverseLoop i j hwAddr =
     (if i < j
      then reverseLoop (i + 1) (j - 1)
             (hwAddr[nat i := hwAddr ! nat j, nat j := hwAddr ! nat i])
      else hwAddr)"
  by pat_completeness auto
termination
  by (relation "measure (\<lambda>(i, j, hwAddr). nat (j - i))") auto

declare reverseLoop.simps [simp del]

definition reverseMAC :: "byte list \<Rightarrow> byte list" where
  "reverseMAC hwAddr = reverseLoop 0 (int (length hwAddr) - 1) hwAddr"

text \<open>The body of one resolver goroutine: what it stores under \<open>gwIP\<close>, if anything.\<close>

definition resolveGateway :: "gw_env \<Rightarrow> string \<Rightarrow> byte list option" where
  "resolveGateway env gwIP =
     (if length gwIP > 0 \<and> \<not> IsIPv6String env gwIP then
        (case GetMACAddressFromARP env gwIP of
           Inl e \<Rightarrow> None
         | Inr hwAddr \<Rightarrow> if length hwAddr > 0 then Some (reverseMAC hwAddr) else None)
      else None)"

definition gatewayIPSet :: "gw_env \<Rightarrow> namespace \<Rightarrow> string list \<Rightarrow> string list" where
  "gatewayIPSet env newNs apbIPs =
     setInsert
       (setInsert (remdups apbIPs)
          (strings_Split (annotation newNs (ExternalGatewayPodIPsAnnotation env)) CHR '',''))
       (strings_Split (annotation newNs (RoutingExternalGWsAnnotation env)) CHR '','')"

definition sentinelLabel :: "byte list" where
  "sentinelLabel = bytesOf ''does-not-contain-anything''"

definition allowList :: "gw_env \<Rightarrow> string list \<Rightarrow> byte list list" where
  "allowList env gatewayIPs =
     (let validNextHopMACs = List.map_filter (resolveGateway env) gatewayIPs in
      if length validNextHopMACs = 0 then validNextHopMACs @ [sentinelLabel]
      else validNextHopMACs)"

datatype gw_error =
  UnableToFetchIP string string pod_ip_error
  | FailedToDeleteConntrack string string

datatype gw_sync_error =
  UnableToRetrieveGatewayIPs string
  | UnableToGetPods string
  | GwAggregate "gw_error aggregate"

text \<open>The request \<^verbatim>\<open>util.DeleteConntrack(podIP, 0, kapi.ProtocolUDP,
  netlink.ConntrackOrigDstIP, validNextHopMACs)\<close>.\<close>

definition podIPRequest :: "byte list list \<Rightarrow> string \<Rightarrow> ct_request" where
  "podIPRequest macs podIP =
     \<lparr>ct_ip = podIP, ct_port = 0, ct_protocol = ProtocolUDP,
      ct_filter = ConntrackOrigDstIP, ct_labels = Some macs\<rparr>"

fun podIPLoop ::
  "gw_env \<Rightarrow> byte list list \<Rightarrow> string list \<Rightarrow> ct_request list \<times> gw_error list" where
  "podIPLoop env macs [] = ([], [])"
| "podIPLoop env macs (podIP # rest) =
     (let req = podIPRequest macs podIP;
          errs = (case DeleteConntrack env req of
                    None \<Rightarrow> [] | Some e \<Rightarrow> [FailedToDeleteConntrack podIP e])
      in (case podIPLoop env macs rest of (reqs, errs') \<Rightarrow> (req # reqs, errs @ errs')))"

fun podLoop ::
  "gw_env \<Rightarrow> byte list list \<Rightarrow> pod list \<Rightarrow> ct_request list \<times> gw_error list" where
  "podLoop env macs [] = ([], [])"
| "podLoop env macs (p # pods) =
     (case GetPodIPsOfNetwork env p of
        (podIPs, err) \<Rightarrow>
          (let errs0 = (case err of
                          None \<Rightarrow> []
                        | Some e \<Rightarrow> if e \<noteq> ErrNoPodIPFound
                                    then [UnableToFetchIP (pod_Namespace p) (pod_Name p) e]
                                    else [])
           in (case podIPLoop env macs podIPs of
                 (reqs, errs) \<Rightarrow>
                   (case podLoop env macs pods of
                      (reqs', errs') \<Rightarrow> (reqs @ reqs', errs0 @ errs @ errs')))))"

definition syncConntrackForExternalGateways ::
  "gw_env \<Rightarrow> namespace \<Rightarrow> ct_request list \<times> gw_sync_error option" where
  "syncConntrackForExternalGateways env newNs =
     (case GetAdminPolicyBasedExternalRouteIPsForTargetNamespace env (ns_Name newNs) of
        Inl e \<Rightarrow> ([], Some (UnableToRetrieveGatewayIPs e))
      | Inr apbIPs \<Rightarrow>
          (let validNextHopMACs = allowList env (gatewayIPSet env newNs apbIPs) in
           case GetPods env (ns_Name newNs) of
             Inl e \<Rightarrow> ([], Some (UnableToGetPods e))
           | Inr pods \<Rightarrow>
               (case podLoop env validNextHopMACs pods of
                  (reqs, errs) \<Rightarrow> (reqs, map_option GwAggregate (NewAggregate errs)))))"

subsection \<open>Heartbeat validity\<close>

text \<open>A lease as \<^verbatim>\<open>isHeartBeatValid\<close> reads it. \<^verbatim>\<open>Spec.RenewTime\<close> and
  \<^verbatim>\<open>Spec.LeaseDurationSeconds\<close> are pointers; a time is a number of nanoseconds.\<close>

record lease =
  lease_Name :: string
  lease_RenewTime :: "int option"
  lease_LeaseDurationSeconds :: "32 word option"

datatype hb_error = ListFailed string | NoLeaseFound string | LeaseExpired string

text \<open>\<^verbatim>\<open>time.Second * time.Duration(d)\<close>, in nanoseconds. The product of a signed
  32-bit value and \<open>10^9\<close> stays inside 64 bits.\<close>

definition leaseDuration :: "32 word \<Rightarrow> int" where
  "leaseDuration d = 1000000000 * sint d"

text \<open>The test of the loop body against the clock reading \<open>now\<close>.\<close>

definition leaseExpired :: "int \<Rightarrow> int \<Rightarrow> 32 word \<Rightarrow> bool" where
  "leaseExpired now renewTime d = (renewTime + leaseDuration d < now)"

text \<open>The loop over \<^verbatim>\<open>leases.Items\<close>. \<^verbatim>\<open>time.Now()\<close> is read once per lease:
  \<open>clock k\<close> is the reading for the lease at index \<open>k\<close>.\<close>

fun leaseLoop :: "(nat \<Rightarrow> int) \<Rightarrow> nat \<Rightarrow> lease list \<Rightarrow> (bool \<times> hb_error option) outcome" where
  "leaseLoop clock k [] = Returned (True, None)"
| "leaseLoop clock k (l # ls) =
     (case lease_RenewTime l of
        None \<Rightarrow> Panicked
      | Some renewTime \<Rightarrow>
          (case lease_LeaseDurationSeconds l of
             None \<Rightarrow> Panicked
           | Some d \<Rightarrow>
               if leaseExpired (clock k) renewTime d
               then Returned (False, Some (LeaseExpired (lease_Name l)))
               else leaseLoop clock (Suc k) ls))"

definition isHeartBeatValid ::
  "(string \<Rightarrow> string + lease list) \<Rightarrow> (nat \<Rightarrow> int) \<Rightarrow> string \<Rightarrow>
   (bool \<times> hb_error option) outcome" where
  "isHeartBeatValid listLeases clock ns =
     (case listLeases ns of
        Inl err \<Rightarrow> Returned (False, Some (ListFailed err))
      | Inr items \<Rightarrow>
          if length items = 0 then Returned (False, Some (NoLeaseFound ns))
          else leaseLoop clock 0 items)"

subsection \<open>Polling\<close>

text \<open>
  \<^verbatim>\<open>wait.PollUntilContextTimeout(ctx, interval, timeout, true, condition)\<close> of
  \<^verbatim>\<open>k8s.io/apimachinery\<close>. The condition runs at once and then at the ticks of a
  ticker of period \<open>interval\<close>, for as long as the context has not been seen to expire:
  invocation \<open>k\<close> (counted from 0) is started by the tick due at \<open>k * interval\<close> or by
  a later one, and a tick due after the deadline starts nothing. How many invocations a
  run makes is not fixed by the two durations: a slow condition drops ticks, and the
  tick that falls on the deadline races with the expiry of the context. The number
  \<open>sched\<close> that the scheduling of the run would allow is a parameter for that reason.
  What holds of every run is that the condition is invoked at least once and at most
  \<open>timeout div interval + 1\<close> times. The poll stops at the first invocation that
  reports \<^verbatim>\<open>true\<close>; when the deadline comes first the call returns the context's
  error. Both closures of \<^verbatim>\<open>Start\<close> return a \<^verbatim>\<open>nil\<close> error always, so a condition
  is a function to \<open>bool\<close> here. Durations are in milliseconds. The result holds
  whether the condition was met, the number of invocations made, and the variables the
  closure captured.
\<close>

definition Millisecond :: nat where
  "Millisecond = 1"

definition Second :: nat where
  "Second = 1000"

fun pollLoop :: "nat \<Rightarrow> nat \<Rightarrow> (nat \<Rightarrow> 's \<Rightarrow> bool \<times> 's) \<Rightarrow> 's \<Rightarrow> bool \<times> nat \<times> 's" where
  "pollLoop 0 k condition s = (False, k, s)"
| "pollLoop (Suc n) k condition s =
     (case condition k s of
        (ok, s') \<Rightarrow> if ok then (True, Suc k, s') else pollLoop n (Suc k) condition s')"

definition pollAttempts :: "nat \<Rightarrow> nat \<Rightarrow> nat \<Rightarrow> nat" where
  "pollAttempts interval timeout sched = max 1 (min sched (timeout div interval + 1))"

definition PollUntilContextTimeout ::
  "nat \<Rightarrow> nat \<Rightarrow> nat \<Rightarrow> (nat \<Rightarrow> 's \<Rightarrow> bool \<times> 's) \<Rightarrow> 's \<Rightarrow> bool \<times> nat \<times> 's" where
  "PollUntilContextTimeout interval timeout sched condition s =
     pollLoop (pollAttempts interval timeout sched) 0 condition s"

datatype poll_error = DeadlineExceeded

subsection \<open>Configuration and the cluster as a polling pass sees it\<close>

text \<open>The process-wide settings the code reads: \<^verbatim>\<open>nc.name\<close>,
  \<^verbatim>\<open>config.Default.Zone\<close>, the constant \<^verbatim>\<open>types.OvnDefaultZone\<close>, whether
  \<^verbatim>\<open>config.OvnKubeNode.Mode\<close> is \<^verbatim>\<open>types.NodeModeDPUHost\<close>,
  \<^verbatim>\<open>config.OVNKubernetesFeature.EnableInterconnect\<close>, the two IP family modes, and
  the helper \<^verbatim>\<open>util.GetLogicalPortName\<close>.\<close>

record config =
  cfg_name :: string
  cfg_DefaultZone :: string
  cfg_OvnDefaultZone :: string
  cfg_ModeDPUHost :: bool
  cfg_EnableInterconnect :: bool
  cfg_IPv4Mode :: bool
  cfg_IPv6Mode :: bool
  cfg_GetLogicalPortName :: "string \<Rightarrow> string \<Rightarrow> string"

text \<open>The result of \<^verbatim>\<open>util.RunOVNSbctl\<close>: stdout, stderr and the error.\<close>

type_synonym sbctl_result = "string \<times> string \<times> string option"

text \<open>A subnet: its \<^verbatim>\<open>String()\<close> and the verdict of \<^verbatim>\<open>utilnet.IsIPv6CIDR\<close>.\<close>

record ipnet =
  net_String :: string
  net_IsIPv6CIDR :: bool

datatype subnet_error = AnnotationNotSet | SubnetParseError string

text \<open>A node as the barrier reads it: its name, \<^verbatim>\<open>util.GetNodeZone\<close>,
  \<^verbatim>\<open>util.NoHostSubnet\<close> and \<^verbatim>\<open>util.ParseNodeHostSubnetAnnotation\<close> for the
  default network (\<^verbatim>\<open>util.IsAnnotationNotSetError\<close> holds of \<open>AnnotationNotSet\<close>).\<close>

record node =
  node_Name :: string
  node_Zone :: string
  node_NoHostSubnet :: bool
  node_HostSubnets :: "subnet_error + ipnet list"

text \<open>What one polling pass can read: the listers and the southbound database.\<close>

record cluster =
  GetNodes :: "string + node list"
  GetServices :: "string + service list"
  GetAllPods :: "string + pod list"
  RunOVNSbctl :: "string list \<Rightarrow> sbctl_result"

subsection \<open>The zone-match wait of Start\<close>

definition getOVNSBZone :: "config \<Rightarrow> (string list \<Rightarrow> sbctl_result) \<Rightarrow> string \<times> string option" where
  "getOVNSBZone cfg sbctl =
     (case sbctl [''get'', ''SB_Global'', ''.'', ''options:name''] of
        (dbZone, stderr, err) \<Rightarrow>
          (case err of
             Some e \<Rightarrow>
               if strings_Contains stderr ''ovn-sbctl: no key \"name\" in SB_Global record''
               then (cfg_OvnDefaultZone cfg, None)
               else ([], Some e)
           | None \<Rightarrow> (dbZone, None)))"

datatype zone_err1 =
  FailedToGetZoneName string
  | ZoneMismatch string string string

text \<open>The variables the closure writes: \<^verbatim>\<open>sbZone\<close> and \<^verbatim>\<open>err1\<close>.\<close>

record zone_vars =
  sbZone :: string
  zone_err1 :: "zone_err1 option"

definition zoneCondition ::
  "config \<Rightarrow> (nat \<Rightarrow> cluster) \<Rightarrow> nat \<Rightarrow> zone_vars \<Rightarrow> bool \<times> zone_vars" where
  "zoneCondition cfg env k vars =
     (case getOVNSBZone cfg (RunOVNSbctl (env k)) of
        (z, err) \<Rightarrow>
          (case err of
             Some e \<Rightarrow> (False, vars\<lparr>sbZone := z, zone_err1 := Some (FailedToGetZoneName e)\<rparr>)
           | None \<Rightarrow>
               if cfg_DefaultZone cfg \<noteq> z
               then (False, vars\<lparr>sbZone := z,
                       zone_err1 := Some (ZoneMismatch (cfg_name cfg) (cfg_DefaultZone cfg) z)\<rparr>)
               else (True, vars\<lparr>sbZone := z\<rparr>)))"

definition zonePoll :: "config \<Rightarrow> nat \<Rightarrow> (nat \<Rightarrow> cluster) \<Rightarrow> bool \<times> nat \<times> zone_vars" where
  "zonePoll cfg sched env =
     PollUntilContextTimeout (500 * Millisecond) (300 * Second) sched (zoneCondition cfg env)
       \<lparr>sbZone = [], zone_err1 = None\<rparr>"

text \<open>The error of \<^verbatim>\<open>Start\<close> on a timeout: the desired zone, the error of the poll
  and \<^verbatim>\<open>err1\<close>.\<close>

datatype start_error = TimedOutWaitingForZone string poll_error "zone_err1 option"

text \<open>Lines 710 to 734 of \<^verbatim>\<open>Start\<close>: the zone the node goes on with, or the error
  returned.\<close>

definition waitForZoneMatch :: "config \<Rightarrow> nat \<Rightarrow> (nat \<Rightarrow> cluster) \<Rightarrow> start_error + string" where
  "waitForZoneMatch cfg sched env =
     (if cfg_ModeDPUHost cfg then Inr (cfg_DefaultZone cfg)
      else
        (case zonePoll cfg sched env of
           (ok, n, vars) \<Rightarrow>
             if ok then Inr (sbZone vars)
             else Inl (TimedOutWaitingForZone (cfg_DefaultZone cfg) DeadlineExceeded
                         (zone_err1 vars))))"

subsection \<open>The interconnect upgrade barrier of Start\<close>

definition doubleQuote :: string where
  "doubleQuote = [CHR 0x22]"

definition checkOVNSBNodeLRSR :: "config \<Rightarrow> (string list \<Rightarrow> sbctl_result) \<Rightarrow> ipnet \<Rightarrow> bool" where
  "checkOVNSBNodeLRSR cfg sbctl nodeSubnet =
     (let v6 =
            (if cfg_IPv6Mode cfg \<and> net_IsIPv6CIDR nodeSubnet then
               (case sbctl [''--bare'', ''--columns'', ''_uuid'', ''find'', ''logical_flow'',
                            ''match='' @ doubleQuote @ ''reg7 == 0 && ip6.dst == '' @
                              net_String nodeSubnet @ doubleQuote] of
                  (stdout, stderr, err) \<Rightarrow> err = None \<and> stderr = [] \<and> stdout \<noteq> [])
             else True);
          v4 =
            (if cfg_IPv4Mode cfg \<and> \<not> net_IsIPv6CIDR nodeSubnet then
               (case sbctl [''--bare'', ''--columns'', ''_uuid'', ''find'', ''logical_flow'',
                            ''match='' @ doubleQuote @ ''reg7 == 0 && ip4.dst == '' @
                              net_String nodeSubnet @ doubleQuote] of
                  (stdout, stderr, err) \<Rightarrow> err = None \<and> stderr = [] \<and> stdout \<noteq> [])
             else True)
      in v6 \<and> v4)"

definition fetchLBNames :: "(string list \<Rightarrow> sbctl_result) \<Rightarrow> string" where
  "fetchLBNames sbctl =
     (case sbctl [''--bare'', ''--columns'', ''name'', ''find'', ''Load_Balancer''] of
        (stdout, stderr, err) \<Rightarrow>
          if err \<noteq> None \<or> stderr \<noteq> [] then stdout else stdout)"

definition stitchedServiceName :: "string \<Rightarrow> string \<Rightarrow> string" where
  "stitchedServiceName ns nm = ''Service_'' @ ns @ ''/'' @ nm"

definition lbExists :: "string \<Rightarrow> string \<Rightarrow> string \<Rightarrow> bool" where
  "lbExists lbNames ns nm = strings_Contains lbNames (stitchedServiceName ns nm)"

definition portExists :: "config \<Rightarrow> (string list \<Rightarrow> sbctl_result) \<Rightarrow> string \<Rightarrow> string \<Rightarrow> bool" where
  "portExists cfg sbctl ns nm =
     (case sbctl [''--bare'', ''--columns'', ''_uuid'', ''find'', ''Port_Binding'',
                  ''logical_port='' @ cfg_GetLogicalPortName cfg ns nm] of
        (stdout, stderr, err) \<Rightarrow> err = None \<and> stderr = [] \<and> stdout \<noteq> [])"

datatype barrier_err1 =
  ErrorRetrievingNode string string
  | UnableToFetchNodeSubnet string string
  | UnableToFindLRSR string
  | ErrorRetrievingServices string

datatype auth_db = OvnNorth | OvnSouth

datatype exit_reason =
  TimedOutWaitingForRemoteController poll_error "barrier_err1 option"
  | FailedToSetNodeZoneAnnotation string
  | FailedToSetNodeAnnotations string
  | UnableToSetAuthentication

text \<open>What the barrier does that the claims observe, in program order: the lister call
  that opens the evaluation of each predicate, the point where a predicate is recorded as
  done, the marker annotation and its persistence, the credential retarget, and the exit
  of the process.\<close>

datatype event =
  GetNodesCalled
  | NodesSynced
  | GetServicesCalled
  | ServicesSynced
  | GetAllPodsCalled
  | PodsSynced
  | SetNodeZoneMigratedCalled string
  | AnnotatorRunCalled
  | SetDBAuthCalled auth_db
  | ExitCalled exit_reason

text \<open>The variables the closure captures, and the events so far.\<close>

record barrier_vars =
  syncNodes :: bool
  syncServices :: bool
  syncPods :: bool
  barrier_err1 :: "barrier_err1 option"
  events :: "event list"

fun subnetLoop ::
  "config \<Rightarrow> (string list \<Rightarrow> sbctl_result) \<Rightarrow> string \<Rightarrow> ipnet list \<Rightarrow> barrier_err1 option" where
  "subnetLoop cfg sbctl nodeName [] = None"
| "subnetLoop cfg sbctl nodeName (nodeSubnet # rest) =
     (if \<not> checkOVNSBNodeLRSR cfg sbctl nodeSubnet then Some (UnableToFindLRSR nodeName)
      else subnetLoop cfg sbctl nodeName rest)"

text \<open>The loop over \<^verbatim>\<open>nodes.Items\<close>: \<open>Some e\<close> when the closure returns
  \<^verbatim>\<open>false\<close> from inside it, with \<open>e\<close> the value given to \<^verbatim>\<open>err1\<close>.\<close>

fun nodeLoop ::
  "config \<Rightarrow> (string list \<Rightarrow> sbctl_result) \<Rightarrow> node list \<Rightarrow> barrier_err1 option" where
  "nodeLoop cfg sbctl [] = None"
| "nodeLoop cfg sbctl (n # nodes) =
     (if cfg_name cfg \<noteq> node_Name n \<and> node_Zone n \<noteq> cfg_DefaultZone cfg
         \<and> \<not> node_NoHostSubnet n then
        (case node_HostSubnets n of
           Inl err \<Rightarrow>
             (case err of
                AnnotationNotSet \<Rightarrow> nodeLoop cfg sbctl nodes
              | SubnetParseError e \<Rightarrow> Some (UnableToFetchNodeSubnet (node_Name n) e))
         | Inr nodeSubnets \<Rightarrow>
             (case subnetLoop cfg sbctl (node_Name n) nodeSubnets of
                Some e \<Rightarrow> Some e
              | None \<Rightarrow> nodeLoop cfg sbctl nodes))
      else nodeLoop cfg sbctl nodes)"

text \<open>The loop over the services: \<open>False\<close> when the closure returns from inside it.\<close>

fun serviceLoop :: "string \<Rightarrow> service list \<Rightarrow> bool" where
  "serviceLoop lbNames [] = True"
| "serviceLoop lbNames (s # services) =
     (if \<not> svc_TypeHasClusterIP s \<or> \<not> svc_ClusterIPSet s then serviceLoop lbNames services
      else if \<not> lbExists lbNames (svc_Namespace s) (svc_Name s) then False
      else serviceLoop lbNames services)"

fun barrierPodLoop :: "config \<Rightarrow> (string list \<Rightarrow> sbctl_result) \<Rightarrow> pod list \<Rightarrow> bool" where
  "barrierPodLoop cfg sbctl [] = True"
| "barrierPodLoop cfg sbctl (p # pods) =
     (if \<not> pod_Scheduled p \<or> pod_Completed p \<or> pod_WantsHostNetwork p
      then barrierPodLoop cfg sbctl pods
      else if pod_NodeName p \<noteq> cfg_name cfg then barrierPodLoop cfg sbctl pods
      else if \<not> portExists cfg sbctl (pod_Namespace p) (pod_Name p) then False
      else barrierPodLoop cfg sbctl pods)"

definition logEvent :: "event \<Rightarrow> barrier_vars \<Rightarrow> barrier_vars" where
  "logEvent e vars = vars\<lparr>events := events vars @ [e]\<rparr>"

text \<open>The three blocks of the closure. Each gives \<open>False\<close> when the closure returns
  \<^verbatim>\<open>false, nil\<close> from inside the block, and \<open>True\<close> when control reaches the
  next block.\<close>

definition nodesBlock :: "config \<Rightarrow> cluster \<Rightarrow> barrier_vars \<Rightarrow> bool \<times> barrier_vars" where
  "nodesBlock cfg c vars =
     (if \<not> syncNodes vars then
        (let vars1 = logEvent GetNodesCalled vars in
         case GetNodes c of
           Inl err \<Rightarrow>
             (False, vars1\<lparr>barrier_err1 := Some (ErrorRetrievingNode (cfg_name cfg) err)\<rparr>)
         | Inr nodes \<Rightarrow>
             (case nodeLoop cfg (RunOVNSbctl c) nodes of
                Some e \<Rightarrow> (False, vars1\<lparr>barrier_err1 := Some e\<rparr>)
              | None \<Rightarrow> (True, logEvent NodesSynced (vars1\<lparr>syncNodes := True\<rparr>))))
      else (True, vars))"

definition servicesBlock :: "config \<Rightarrow> cluster \<Rightarrow> barrier_vars \<Rightarrow> bool \<times> barrier_vars" where
  "servicesBlock cfg c vars =
     (if \<not> syncServices vars then
        (let vars1 = logEvent GetServicesCalled vars in
         case GetServices c of
           Inl err \<Rightarrow> (False, vars1\<lparr>barrier_err1 := Some (ErrorRetrievingServices err)\<rparr>)
         | Inr services \<Rightarrow>
             (let lbNames = fetchLBNames (RunOVNSbctl c) in
              if serviceLoop lbNames services
              then (True, logEvent ServicesSynced (vars1\<lparr>syncServices := True\<rparr>))
              else (False, vars1)))
      else (True, vars))"

definition podsBlock :: "config \<Rightarrow> cluster \<Rightarrow> barrier_vars \<Rightarrow> bool \<times> barrier_vars" where
  "podsBlock cfg c vars =
     (if \<not> syncPods vars then
        (let vars1 = logEvent GetAllPodsCalled vars in
         case GetAllPods c of
           Inl err \<Rightarrow> (False, vars1\<lparr>barrier_err1 := Some (ErrorRetrievingServices err)\<rparr>)
         | Inr pods \<Rightarrow>
             if barrierPodLoop cfg (RunOVNSbctl c) pods
             then (True, logEvent PodsSynced (vars1\<lparr>syncPods := True\<rparr>))
             else (False, vars1))
      else (True, vars))"

text \<open>The closure given to the poll: one polling pass over the cluster as it is at
  pass \<open>k\<close>.\<close>

definition barrierCondition ::
  "config \<Rightarrow> (nat \<Rightarrow> cluster) \<Rightarrow> nat \<Rightarrow> barrier_vars \<Rightarrow> bool \<times> barrier_vars" where
  "barrierCondition cfg env k vars =
     (case nodesBlock cfg (env k) vars of
        (go1, vars1) \<Rightarrow>
          if \<not> go1 then (False, vars1)
          else
            (case servicesBlock cfg (env k) vars1 of
               (go2, vars2) \<Rightarrow>
                 if \<not> go2 then (False, vars2)
                 else
                   (case podsBlock cfg (env k) vars2 of
                      (go3, vars3) \<Rightarrow> if \<not> go3 then (False, vars3) else (True, vars3))))"

definition barrierInterval :: nat where
  "barrierInterval = 500 * Millisecond"

definition barrierTimeout :: nat where
  "barrierTimeout = 300 * Second"

definition initialBarrierVars :: barrier_vars where
  "initialBarrierVars =
     \<lparr>syncNodes = False, syncServices = False, syncPods = False,
      barrier_err1 = None, events = []\<rparr>"

definition barrierPoll :: "config \<Rightarrow> nat \<Rightarrow> (nat \<Rightarrow> cluster) \<Rightarrow> bool \<times> nat \<times> barrier_vars" where
  "barrierPoll cfg sched env =
     PollUntilContextTimeout barrierInterval barrierTimeout sched (barrierCondition cfg env)
       initialBarrierVars"

text \<open>The node annotator and the database credentials: the results of
  \<^verbatim>\<open>util.SetNodeZoneMigrated\<close>, \<^verbatim>\<open>nodeAnnotator.Run\<close> and
  \<^verbatim>\<open>auth.SetDBAuth\<close>.\<close>

record annotator =
  SetNodeZoneMigrated :: "string \<Rightarrow> string option"
  AnnotatorRun :: "string option"
  SetDBAuth :: "auth_db \<Rightarrow> string option"

text \<open>The loop over \<^verbatim>\<open>config.OvnNorth\<close> and \<^verbatim>\<open>config.OvnSouth\<close>; a failure
  exits the process.\<close>

fun authLoop :: "annotator \<Rightarrow> auth_db list \<Rightarrow> event list \<times> exit_reason option" where
  "authLoop a [] = ([], None)"
| "authLoop a (auth # rest) =
     (case SetDBAuth a auth of
        Some err \<Rightarrow> ([SetDBAuthCalled auth, ExitCalled UnableToSetAuthentication],
                     Some UnableToSetAuthentication)
      | None \<Rightarrow> (case authLoop a rest of (evs, r) \<Rightarrow> (SetDBAuthCalled auth # evs, r)))"

text \<open>Lines 945 to 957: the marker, its persistence, then the retarget.\<close>

definition migrateZone :: "annotator \<Rightarrow> string \<Rightarrow> event list \<times> exit_reason option" where
  "migrateZone a z =
     (case SetNodeZoneMigrated a z of
        Some err \<Rightarrow>
          ([SetNodeZoneMigratedCalled z, ExitCalled (FailedToSetNodeZoneAnnotation err)],
           Some (FailedToSetNodeZoneAnnotation err))
      | None \<Rightarrow>
          (case AnnotatorRun a of
             Some err \<Rightarrow>
               ([SetNodeZoneMigratedCalled z, AnnotatorRunCalled,
                 ExitCalled (FailedToSetNodeAnnotations err)],
                Some (FailedToSetNodeAnnotations err))
           | None \<Rightarrow>
               (case authLoop a [OvnNorth, OvnSouth] of
                  (evs, r) \<Rightarrow> ([SetNodeZoneMigratedCalled z, AnnotatorRunCalled] @ evs, r))))"

text \<open>Lines 863 to 958 of \<^verbatim>\<open>Start\<close>. \<open>migrated\<close> is
  \<^verbatim>\<open>util.HasNodeMigratedZone(node)\<close>. The result is the events in program order and
  the reason of the exit, \<open>None\<close> when \<^verbatim>\<open>Start\<close> goes on.\<close>

definition upgradeHack ::
  "config \<Rightarrow> nat \<Rightarrow> bool \<Rightarrow> string \<Rightarrow> (nat \<Rightarrow> cluster) \<Rightarrow> annotator \<Rightarrow>
     event list \<times> exit_reason option" where
  "upgradeHack cfg sched migrated z env a =
     (if \<not> cfg_ModeDPUHost cfg \<and> cfg_EnableInterconnect cfg \<and> z \<noteq> cfg_OvnDefaultZone cfg
         \<and> \<not> migrated then
        (case barrierPoll cfg sched env of
           (ok, n, vars) \<Rightarrow>
             if \<not> ok then
               (events vars @
                  [ExitCalled (TimedOutWaitingForRemoteController DeadlineExceeded
                                 (barrier_err1 vars))],
                Some (TimedOutWaitingForRemoteController DeadlineExceeded (barrier_err1 vars)))
             else (case migrateZone a z of (evs, r) \<Rightarrow> (events vars @ evs, r)))
      else ([], None))"

section \<open>Vocabulary of the statements\<close>

subsection \<open>Conntrack\<close>

definition isUDPPort :: "endpoint_port \<Rightarrow> bool" where
  "isUDPPort pt = (port_Protocol pt = Some ProtocolUDP)"

text \<open>The deletion requests for a list of old addresses under a port that is set: one
  for each address that is not still in the new slice.\<close>

definition addressRequests ::
  "es_env \<Rightarrow> endpoint_slice option \<Rightarrow> service option \<Rightarrow> protocol \<Rightarrow> 32 word \<Rightarrow>
   string list \<Rightarrow> ct_request list" where
  "addressRequests env newES svc proto p addrs =
     map (\<lambda>a. servicePortRequest (ParseIPSloppyString env a) p proto)
       (filter (\<lambda>a. \<not> stillInNewSlice env newES svc proto p (ParseIPSloppyString env a)) addrs)"

text \<open>The deletions that fail among those for a list of pod IPs, as the errors the
  external-gateway pass builds for them.\<close>

definition deleteFailures :: "gw_env \<Rightarrow> byte list list \<Rightarrow> string list \<Rightarrow> gw_error list" where
  "deleteFailures env macs ips =
     concat (map (\<lambda>ip. case DeleteConntrack env (podIPRequest macs ip) of
                          None \<Rightarrow> [] | Some e \<Rightarrow> [FailedToDeleteConntrack ip e]) ips)"

text \<open>The error the external-gateway pass builds when the addresses of a pod cannot
  be fetched.\<close>

definition fetchFailure :: "gw_env \<Rightarrow> pod \<Rightarrow> gw_error list" where
  "fetchFailure env p =
     (case snd (GetPodIPsOfNetwork env p) of
        None \<Rightarrow> []
      | Some e \<Rightarrow> if e \<noteq> ErrNoPodIPFound
                  then [UnableToFetchIP (pod_Namespace p) (pod_Name p) e] else [])"

subsection \<open>Leases\<close>

definition leaseWellFormed :: "lease \<Rightarrow> bool" where
  "leaseWellFormed l = (lease_RenewTime l \<noteq> None \<and> lease_LeaseDurationSeconds l \<noteq> None)"

text \<open>A lease satisfies \<open>renewTime + leaseDurationSeconds < now\<close>.\<close>

definition leaseExpiredAt :: "int \<Rightarrow> lease \<Rightarrow> bool" where
  "leaseExpiredAt now l =
     (case lease_RenewTime l of
        None \<Rightarrow> False
      | Some renewTime \<Rightarrow>
          (case lease_LeaseDurationSeconds l of
             None \<Rightarrow> False
           | Some d \<Rightarrow> leaseExpired now renewTime d))"

subsection \<open>Polling\<close>

text \<open>The zone a polling pass reads from the southbound database, when the read
  succeeds.\<close>

definition observedZone :: "config \<Rightarrow> cluster \<Rightarrow> string option" where
  "observedZone cfg c =
     (case getOVNSBZone cfg (RunOVNSbctl c) of
        (z, err) \<Rightarrow> (case err of None \<Rightarrow> Some z | Some e \<Rightarrow> None))"

text \<open>The error of the read of a polling pass, when it fails.\<close>

definition zoneReadError :: "config \<Rightarrow> cluster \<Rightarrow> string option" where
  "zoneReadError cfg c = snd (getOVNSBZone cfg (RunOVNSbctl c))"

text \<open>All three readiness predicates are recorded as done.\<close>

definition allSynced :: "barrier_vars \<Rightarrow> bool" where
  "allSynced vars = (syncNodes vars \<and> syncServices vars \<and> syncPods vars)"

text \<open>The events a pass adds to those of \<open>vars\<close>.\<close>

definition newEvents :: "barrier_vars \<Rightarrow> barrier_vars \<Rightarrow> event list" where
  "newEvents vars vars' = drop (length (events vars)) (events vars')"

text \<open>The lister call \<open>call\<close> occurs after the first \<open>done\<close>: the predicate was
  evaluated again after it had been recorded as done.\<close>

definition evaluatedAfterDone :: "event \<Rightarrow> event \<Rightarrow> event list \<Rightarrow> bool" where
  "evaluatedAfterDone call done evs = (call \<in> set (dropWhile (\<lambda>e. e \<noteq> done) evs))"

text \<open>The entry condition of the barrier.\<close>

definition barrierEntered :: "config \<Rightarrow> bool \<Rightarrow> string \<Rightarrow> bool" where
  "barrierEntered cfg migrated z =
     (\<not> cfg_ModeDPUHost cfg \<and> cfg_EnableInterconnect cfg \<and> z \<noteq> cfg_OvnDefaultZone cfg
      \<and> \<not> migrated)"

text \<open>The claim's reading of the requirement of the services predicate: the names of
  the load balancers are the non-empty lines of the output, and a load balancer whose
  name is exactly the stitched name is among them.\<close>

definition loadBalancerKeys :: "string \<Rightarrow> string list" where
  "loadBalancerKeys lbNames = filter (\<lambda>l. l \<noteq> []) (strings_Split lbNames CHR 0x0A)"

definition exactKeyExists :: "string \<Rightarrow> service \<Rightarrow> bool" where
  "exactKeyExists lbNames s =
     (stitchedServiceName (svc_Namespace s) (svc_Name s) \<in> set (loadBalancerKeys lbNames))"

text \<open>The bookkeeping of one predicate agrees with the events: it is recorded as done
  exactly when \<open>done\<close> is among the events, and then \<open>call\<close> does not occur after
  \<open>done\<close>.\<close>

definition cachedOnce :: "event \<Rightarrow> event \<Rightarrow> bool \<Rightarrow> event list \<Rightarrow> bool" where
  "cachedOnce call done flag evs =
     (if flag then done \<in> set evs \<and> \<not> evaluatedAfterDone call done evs
      else done \<notin> set evs)"

definition cacheInvariant :: "barrier_vars \<Rightarrow> bool" where
  "cacheInvariant vars =
     (cachedOnce GetNodesCalled NodesSynced (syncNodes vars) (events vars)
      \<and> cachedOnce GetServicesCalled ServicesSynced (syncServices vars) (events vars)
      \<and> cachedOnce GetAllPodsCalled PodsSynced (syncPods vars) (events vars))"

text \<open>The events of the polling passes.\<close>

definition isPollEvent :: "event \<Rightarrow> bool" where
  "isPollEvent e =
     (e = GetNodesCalled \<or> e = NodesSynced \<or> e = GetServicesCalled \<or> e = ServicesSynced
      \<or> e = GetAllPodsCalled \<or> e = PodsSynced)"

section \<open>Concrete scenarios\<close>

subsection \<open>An endpoint slice losing its one UDP endpoint\<close>

text \<open>A kernel that carries out every deletion, and one that refuses every deletion.\<close>

definition kernelAccepts :: "ct_request \<Rightarrow> string option" where
  "kernelAccepts req = None"

definition kernelRefuses :: "ct_request \<Rightarrow> string option" where
  "kernelRefuses req = Some ''operation not permitted''"

definition dnsService :: service where
  "dnsService = \<lparr>svc_Namespace = ''kube-system'', svc_Name = ''dns'',
                  svc_TypeHasClusterIP = True, svc_ClusterIPSet = True\<rparr>"

definition sliceHolds :: "endpoint_slice \<Rightarrow> string \<Rightarrow> 32 word \<Rightarrow> protocol \<Rightarrow> bool" where
  "sliceHolds es ip p proto =
     (ip \<in> set (concat (map ep_Addresses (es_Endpoints es)))
      \<and> list_ex (\<lambda>pt. port_Port pt = Some p \<and> port_Protocol pt = Some proto) (es_Ports es))"

definition dnsEnv :: "(ct_request \<Rightarrow> string option) \<Rightarrow> es_env" where
  "dnsEnv del =
     \<lparr>ServiceNamespacedNameFromEndpointSlice = (\<lambda>es. Inr (es_Namespace es, ''dns'')),
      GetService = (\<lambda>ns nm. Inr dnsService),
      ParseIPSloppyString = (\<lambda>ip. ip),
      DoesEndpointSliceContainEndpoint = (\<lambda>es ip p proto svc. sliceHolds es ip p proto),
      DeleteConntrackServicePort = del\<rparr>"

definition dnsSlice :: "string list \<Rightarrow> endpoint_slice" where
  "dnsSlice addrs =
     \<lparr>es_Namespace = ''kube-system'', es_Name = ''dns-x7k2p'',
      es_Ports = [\<lparr>port_Protocol = Some ProtocolTCP, port_Port = Some 53\<rparr>,
                  \<lparr>port_Protocol = Some ProtocolUDP, port_Port = Some 53\<rparr>],
      es_Endpoints = [\<lparr>ep_Addresses = addrs\<rparr>]\<rparr>"

text \<open>The same slice with its UDP port alone.\<close>

definition dnsUDPSlice :: "string list \<Rightarrow> endpoint_slice" where
  "dnsUDPSlice addrs =
     \<lparr>es_Namespace = ''kube-system'', es_Name = ''dns-x7k2p'',
      es_Ports = [\<lparr>port_Protocol = Some ProtocolUDP, port_Port = Some 53\<rparr>],
      es_Endpoints = [\<lparr>ep_Addresses = addrs\<rparr>]\<rparr>"

text \<open>The service lister fails with an error that is not not-found.\<close>

definition brokenListerEnv :: es_env where
  "brokenListerEnv =
     \<lparr>ServiceNamespacedNameFromEndpointSlice = (\<lambda>es. Inr (es_Namespace es, ''dns'')),
      GetService = (\<lambda>ns nm. Inl (OtherError ''informer cache is not synced'')),
      ParseIPSloppyString = (\<lambda>ip. ip),
      DoesEndpointSliceContainEndpoint = (\<lambda>es ip p proto svc. sliceHolds es ip p proto),
      DeleteConntrackServicePort = kernelAccepts\<rparr>"

subsection \<open>A namespace whose one gateway does not answer ARP\<close>

definition gwNamespace :: namespace where
  "gwNamespace =
     \<lparr>ns_Name = ''tenant-a'',
      ns_Annotations = (\<lambda>key. if key = ''k8s.ovn.org/routing-external-gws''
                               then Some ''192.168.10.1'' else None)\<rparr>"

definition gwPod :: pod where
  "gwPod = \<lparr>pod_Namespace = ''tenant-a'', pod_Name = ''app-0'', pod_NodeName = ''node1'',
             pod_Scheduled = True, pod_Completed = False, pod_WantsHostNetwork = False\<rparr>"

definition arpSilent :: "string \<Rightarrow> string + byte list" where
  "arpSilent ip = Inl ''no ARP reply''"

definition gwEnv :: "(string \<Rightarrow> string + byte list) \<Rightarrow> (ct_request \<Rightarrow> string option) \<Rightarrow> gw_env" where
  "gwEnv arp del =
     \<lparr>ExternalGatewayPodIPsAnnotation = ''k8s.ovn.org/external-gw-pod-ips'',
      RoutingExternalGWsAnnotation = ''k8s.ovn.org/routing-external-gws'',
      GetAdminPolicyBasedExternalRouteIPsForTargetNamespace = (\<lambda>ns. Inr []),
      IsIPv6String = (\<lambda>ip. CHR '':'' \<in> set ip),
      GetMACAddressFromARP = arp,
      GetPods = (\<lambda>ns. Inr [gwPod]),
      GetPodIPsOfNetwork = (\<lambda>p. ([''10.244.1.5'', ''fd00:10:244:1::5''], None)),
      DeleteConntrack = del\<rparr>"

subsection \<open>Two leases, one of them stale\<close>

definition freshLease :: lease where
  "freshLease = \<lparr>lease_Name = ''dpu-a'', lease_RenewTime = Some 95000000000,
                 lease_LeaseDurationSeconds = Some 40\<rparr>"

definition staleLease :: lease where
  "staleLease = \<lparr>lease_Name = ''dpu-b'', lease_RenewTime = Some 50000000000,
                 lease_LeaseDurationSeconds = Some 40\<rparr>"

text \<open>A lease whose \<^verbatim>\<open>spec.renewTime\<close> is not set.\<close>

definition unrenewedLease :: lease where
  "unrenewedLease = \<lparr>lease_Name = ''dpu-c'', lease_RenewTime = None,
                     lease_LeaseDurationSeconds = Some 40\<rparr>"

text \<open>A lease of 10 seconds renewed at 85 s.\<close>

definition shortLease :: lease where
  "shortLease = \<lparr>lease_Name = ''dpu-d'', lease_RenewTime = Some 85000000000,
                 lease_LeaseDurationSeconds = Some 10\<rparr>"

definition frozenClock :: "int \<Rightarrow> nat \<Rightarrow> int" where
  "frozenClock now k = now"

definition twoLeases :: "string \<Rightarrow> string + lease list" where
  "twoLeases ns = Inr [freshLease, staleLease]"

subsection \<open>A node of zone1 and the cluster around it\<close>

definition node1Config :: config where
  "node1Config =
     \<lparr>cfg_name = ''node1'', cfg_DefaultZone = ''zone1'', cfg_OvnDefaultZone = ''global'',
      cfg_ModeDPUHost = False, cfg_EnableInterconnect = True,
      cfg_IPv4Mode = True, cfg_IPv6Mode = False,
      cfg_GetLogicalPortName = (\<lambda>ns nm. ns @ ''_'' @ nm)\<rparr>"

text \<open>A southbound database that names its zone \<open>zone\<close>, lists the load balancer names
  \<open>lbs\<close> and finds a row for every other query.\<close>

definition sbAnswers :: "string \<Rightarrow> string \<Rightarrow> string list \<Rightarrow> sbctl_result" where
  "sbAnswers zone lbs args =
     (if args = [''get'', ''SB_Global'', ''.'', ''options:name''] then (zone, [], None)
      else if args = [''--bare'', ''--columns'', ''name'', ''find'', ''Load_Balancer'']
      then (lbs, [], None)
      else (''0b6e3c1a-5d55-4a0f-9d0e-7a1c2f3b4d5e'', [], None))"

definition node2 :: node where
  "node2 = \<lparr>node_Name = ''node2'', node_Zone = ''zone2'', node_NoHostSubnet = False,
             node_HostSubnets = Inr [\<lparr>net_String = ''10.244.2.0/24'', net_IsIPv6CIDR = False\<rparr>]\<rparr>"


text \<open>The cluster with a reachable southbound database.\<close>

definition clusterWith :: "string \<Rightarrow> string \<Rightarrow> service list \<Rightarrow> cluster" where
  "clusterWith zone lbs services =
     \<lparr>GetNodes = Inr [node2], GetServices = Inr services, GetAllPods = Inr [gwPod],
      RunOVNSbctl = sbAnswers zone lbs\<rparr>"

text \<open>A cluster that is ready at every pass.\<close>

definition readyCluster :: "nat \<Rightarrow> cluster" where
  "readyCluster k = clusterWith ''zone1'' ''Service_kube-system/dns_UDP_cluster'' [dnsService]"

text \<open>The database reports the empty zone on the first pass and \<open>zoneB\<close> from then on;
  the node wants \<open>zoneA\<close>.\<close>

definition zoneAConfig :: config where
  "zoneAConfig = node1Config\<lparr>cfg_DefaultZone := ''zoneA''\<rparr>"

definition zoneBCluster :: "nat \<Rightarrow> cluster" where
  "zoneBCluster k = clusterWith (if k = 0 then [] else ''zoneB'') [] []"

text \<open>A southbound database that cannot be reached.\<close>

definition sbUnreachable :: "string list \<Rightarrow> sbctl_result" where
  "sbUnreachable args =
     ([], ''ovn-sbctl: unix:/var/run/ovn/ovnsb_db.sock: database connection failed'',
      Some ''exit status 1'')"

text \<open>The database reports \<open>zoneB\<close> for the first 150 seconds (300 passes) and cannot be
  reached from then on.\<close>

definition zoneBThenDownCluster :: "nat \<Rightarrow> cluster" where
  "zoneBThenDownCluster k =
     (clusterWith ''zoneB'' [] [])\<lparr>RunOVNSbctl := (if k < 300 then sbAnswers ''zoneB'' []
                                                    else sbUnreachable)\<rparr>"

text \<open>The load balancer of the DNS service appears in the southbound database at the
  third pass; the routes and the port bindings are there from the start.\<close>

definition lbLateCluster :: "nat \<Rightarrow> cluster" where
  "lbLateCluster k =
     clusterWith ''zone1''
       (if k < 2 then [] else ''Service_kube-system/dns_UDP_cluster'') [dnsService]"

text \<open>The node lister fails for the first 600 seconds (1200 passes) and works from then
  on.\<close>

definition lateCluster :: "nat \<Rightarrow> cluster" where
  "lateCluster k =
     (readyCluster k)\<lparr>GetNodes := (if k < 1200 then Inl ''connection refused''
                                    else Inr [node2])\<rparr>"



text \<open>An annotator and credentials that never fail.\<close>

definition annotatorWorks :: annotator where
  "annotatorWorks = \<lparr>SetNodeZoneMigrated = (\<lambda>z. None), AnnotatorRun = None,
                      SetDBAuth = (\<lambda>auth. None)\<rparr>"

section \<open>Verification\<close>

subsection \<open>Endpoint-slice conntrack reconciliation\<close>

lemma addressLoop_protocol:
  "addressLoop env newES svc proto port addrs = (reqs, lgs, ok) \<Longrightarrow> r \<in> set reqs \<Longrightarrow>
     ct_protocol r = proto"
  by (induction addrs arbitrary: reqs lgs ok)
    (auto split: option.splits prod.splits if_splits simp: Let_def servicePortRequest_def)

lemma endpointLoop_protocol:
  "endpointLoop env newES svc proto port eps = (reqs, lgs, ok) \<Longrightarrow> r \<in> set reqs \<Longrightarrow>
     ct_protocol r = proto"
  by (induction eps arbitrary: reqs lgs ok)
    (auto split: option.splits prod.splits if_splits dest: addressLoop_protocol)

lemma portLoop_protocol:
  "portLoop env newES svc eps ports = (reqs, lgs, ok) \<Longrightarrow> r \<in> set reqs \<Longrightarrow>
     ct_protocol r = ProtocolUDP"
  by (induction ports arbitrary: reqs lgs ok)
    (auto split: option.splits prod.splits if_splits dest: endpointLoop_protocol)

lemma reconcile_only_UDP:
  "r \<in> set (issued (reconcileConntrackUponEndpointSliceEvents env oldES newES)) \<Longrightarrow>
     ct_protocol r = ProtocolUDP"
  by (auto simp: reconcileConntrackUponEndpointSliceEvents_def reconcileLoops_def
      split: option.splits sum.splits prod.splits if_splits dest: portLoop_protocol)

text \<open>With the port set, the address loop runs to its end and asks for one deletion per
  address that left the slice.\<close>

lemma addressLoop_Some:
  "\<exists>lgs. addressLoop env newES svc proto (Some p) addrs =
     (addressRequests env newES svc proto p addrs, lgs, True)"
  by (induction addrs) (auto simp: addressRequests_def Let_def)

lemma endpointLoop_Some:
  "\<exists>lgs. endpointLoop env newES svc proto (Some p) eps =
     (addressRequests env newES svc proto p (concat (map ep_Addresses eps)), lgs, True)"
proof (induction eps)
  case Nil
  then show ?case by (simp add: addressRequests_def)
next
  case (Cons e eps)
  obtain l1 where a: "addressLoop env newES svc proto (Some p) (ep_Addresses e) =
      (addressRequests env newES svc proto p (ep_Addresses e), l1, True)"
    using addressLoop_Some by blast
  from Cons obtain l2 where b: "endpointLoop env newES svc proto (Some p) eps =
      (addressRequests env newES svc proto p (concat (map ep_Addresses eps)), l2, True)"
    by blast
  show ?case using a b by (simp add: addressRequests_def)
qed

lemma portLoop_wellformed:
  assumes "\<forall>pt\<in>set ports. port_Protocol pt \<noteq> None"
    and "\<forall>pt\<in>set ports. isUDPPort pt \<longrightarrow> port_Port pt \<noteq> None"
  shows "\<exists>lgs. portLoop env newES svc eps ports =
     (concat (map (\<lambda>pt. addressRequests env newES svc ProtocolUDP (the (port_Port pt))
                           (concat (map ep_Addresses eps)))
               (filter isUDPPort ports)), lgs, True)"
  using assms
proof (induction ports)
  case Nil
  then show ?case by simp
next
  case (Cons pt ports)
  then obtain l2 where rest: "portLoop env newES svc eps ports =
     (concat (map (\<lambda>pt. addressRequests env newES svc ProtocolUDP (the (port_Port pt))
                           (concat (map ep_Addresses eps)))
               (filter isUDPPort ports)), l2, True)" by auto
  from Cons.prems obtain proto where proto: "port_Protocol pt = Some proto" by auto
  show ?case
  proof (cases "proto = ProtocolUDP")
    case False
    then have "\<not> isUDPPort pt" using proto by (simp add: isUDPPort_def)
    then show ?thesis using False proto rest by simp
  next
    case True
    with proto Cons.prems obtain p where p: "port_Port pt = Some p"
      by (auto simp: isUDPPort_def)
    obtain l1 where "endpointLoop env newES svc ProtocolUDP (Some p) eps =
       (addressRequests env newES svc ProtocolUDP p (concat (map ep_Addresses eps)), l1, True)"
      using endpointLoop_Some by blast
    moreover have "isUDPPort pt" using True proto by (simp add: isUDPPort_def)
    ultimately show ?thesis using True proto p rest by simp
  qed
qed

lemma reconcileLoops_single:
  assumes wf: "\<forall>pt\<in>set (es_Ports oldES). port_Protocol pt \<noteq> None"
    and one: "filter isUDPPort (es_Ports oldES) =
                [\<lparr>port_Protocol = Some ProtocolUDP, port_Port = Some p\<rparr>]"
    and addr: "concat (map ep_Addresses (es_Endpoints oldES)) = [a]"
    and gone: "\<not> stillInNewSlice env newES svc ProtocolUDP p (ParseIPSloppyString env a)"
  shows "issued (reconcileLoops env oldES newES svc) =
           [servicePortRequest (ParseIPSloppyString env a) p ProtocolUDP]
       \<and> ending (reconcileLoops env oldES newES svc) = Returned None"
proof -
  have "\<forall>pt\<in>set (es_Ports oldES). isUDPPort pt \<longrightarrow> port_Port pt \<noteq> None"
  proof (intro ballI impI)
    fix pt assume "pt \<in> set (es_Ports oldES)" "isUDPPort pt"
    then have "pt \<in> set (filter isUDPPort (es_Ports oldES))" by simp
    with one show "port_Port pt \<noteq> None" by simp
  qed
  from portLoop_wellformed[OF wf this, of env newES svc "es_Endpoints oldES"]
  obtain lgs where "portLoop env newES svc (es_Endpoints oldES) (es_Ports oldES) =
     (concat (map (\<lambda>pt. addressRequests env newES svc ProtocolUDP (the (port_Port pt))
                           (concat (map ep_Addresses (es_Endpoints oldES))))
               (filter isUDPPort (es_Ports oldES))), lgs, True)" by blast
  then show ?thesis using one addr gone
    by (simp add: reconcileLoops_def addressRequests_def NewAggregate_def)
qed

text \<open>
  Claim C4, as the code has it. Endpoint-slice reconciliation asks for no deletion and
  returns no error when the old slice is nil. Given an old slice with exactly one UDP endpoint E
  (one address \<open>a\<close>, one UDP port \<open>p\<close>; the slice may list ports of other protocols
  beside it, each with its protocol set) and a new slice lacking E (nil, or not holding
  E for the slice's service), and provided the name of the slice's service is read from
  the slice and the lister finds the service or reports it not found, the pass asks for
  exactly one deletion, for E's IP, port \<open>p\<close> and UDP, and returns no error. No
  request it ever issues is for a protocol other than UDP.
\<close>

theorem endpointSlice_stale_endpoint_deletion:
  "reconcileConntrackUponEndpointSliceEvents env None newES =
      \<lparr>issued = [], logged = [], ending = Returned None\<rparr>
   \<and> (\<forall>oldES ns nm svc p a.
        ServiceNamespacedNameFromEndpointSlice env oldES = Inr (ns, nm) \<and>
        (GetService env ns nm = Inl NotFound \<and> svc = None
           \<or> (\<exists>s. GetService env ns nm = Inr s \<and> svc = Some s)) \<and>
        (\<forall>pt\<in>set (es_Ports oldES). port_Protocol pt \<noteq> None) \<and>
        filter (\<lambda>pt. port_Protocol pt = Some ProtocolUDP) (es_Ports oldES) =
          [\<lparr>port_Protocol = Some ProtocolUDP, port_Port = Some p\<rparr>] \<and>
        concat (map ep_Addresses (es_Endpoints oldES)) = [a] \<and>
        (\<forall>n. newES = Some n \<longrightarrow>
           \<not> DoesEndpointSliceContainEndpoint env n (ParseIPSloppyString env a) p
                ProtocolUDP svc)
        \<longrightarrow> issued (reconcileConntrackUponEndpointSliceEvents env (Some oldES) newES) =
              [\<lparr>ct_ip = ParseIPSloppyString env a, ct_port = p, ct_protocol = ProtocolUDP,
                ct_filter = ConntrackReplyAnyIP, ct_labels = None\<rparr>]
            \<and> ending (reconcileConntrackUponEndpointSliceEvents env (Some oldES) newES) =
              Returned None)
   \<and> (\<forall>oldES. \<forall>r\<in>set (issued (reconcileConntrackUponEndpointSliceEvents env oldES newES)).
        ct_protocol r = ProtocolUDP)"
proof (intro conjI allI impI ballI)
  show "reconcileConntrackUponEndpointSliceEvents env None newES =
      \<lparr>issued = [], logged = [], ending = Returned None\<rparr>"
    by (simp add: reconcileConntrackUponEndpointSliceEvents_def)
next
  fix oldES ns nm svc p a
  assume h: "ServiceNamespacedNameFromEndpointSlice env oldES = Inr (ns, nm) \<and>
        (GetService env ns nm = Inl NotFound \<and> svc = None
           \<or> (\<exists>s. GetService env ns nm = Inr s \<and> svc = Some s)) \<and>
        (\<forall>pt\<in>set (es_Ports oldES). port_Protocol pt \<noteq> None) \<and>
        filter (\<lambda>pt. port_Protocol pt = Some ProtocolUDP) (es_Ports oldES) =
          [\<lparr>port_Protocol = Some ProtocolUDP, port_Port = Some p\<rparr>] \<and>
        concat (map ep_Addresses (es_Endpoints oldES)) = [a] \<and>
        (\<forall>n. newES = Some n \<longrightarrow>
           \<not> DoesEndpointSliceContainEndpoint env n (ParseIPSloppyString env a) p
                ProtocolUDP svc)"
  then have eq: "reconcileConntrackUponEndpointSliceEvents env (Some oldES) newES =
      reconcileLoops env oldES newES svc"
    by (auto simp: reconcileConntrackUponEndpointSliceEvents_def IsNotFound_def)
  have udp: "isUDPPort = (\<lambda>pt. port_Protocol pt = Some ProtocolUDP)"
    by (rule ext) (simp add: isUDPPort_def)
  from h have wf: "\<forall>pt\<in>set (es_Ports oldES). port_Protocol pt \<noteq> None"
    and one: "filter isUDPPort (es_Ports oldES) =
                [\<lparr>port_Protocol = Some ProtocolUDP, port_Port = Some p\<rparr>]"
    and addr: "concat (map ep_Addresses (es_Endpoints oldES)) = [a]"
    and gone: "\<not> stillInNewSlice env newES svc ProtocolUDP p (ParseIPSloppyString env a)"
    by (simp_all add: udp stillInNewSlice_def split: option.splits)
  from reconcileLoops_single[OF wf one addr gone]
  have l: "issued (reconcileLoops env oldES newES svc) =
         [\<lparr>ct_ip = ParseIPSloppyString env a, ct_port = p, ct_protocol = ProtocolUDP,
           ct_filter = ConntrackReplyAnyIP, ct_labels = None\<rparr>]
       \<and> ending (reconcileLoops env oldES newES svc) = Returned None"
    by (simp add: servicePortRequest_def)
  show "issued (reconcileConntrackUponEndpointSliceEvents env (Some oldES) newES) =
              [\<lparr>ct_ip = ParseIPSloppyString env a, ct_port = p, ct_protocol = ProtocolUDP,
                ct_filter = ConntrackReplyAnyIP, ct_labels = None\<rparr>]"
    using eq l by simp
  show "ending (reconcileConntrackUponEndpointSliceEvents env (Some oldES) newES) =
              Returned None"
    using eq l by simp
next
  fix oldES r
  assume "r \<in> set (issued (reconcileConntrackUponEndpointSliceEvents env oldES newES))"
  then show "ct_protocol r = ProtocolUDP" by (rule reconcile_only_UDP)
qed

text \<open>The slice of the DNS service loses \<open>10.244.1.5\<close> and gains \<open>10.244.1.9\<close>: one
  deletion, for \<open>10.244.1.5\<close>, port 53, UDP; nothing for the TCP port. (And nothing
  at all when the new slice still holds \<open>10.244.1.5\<close>.)\<close>

theorem endpointSlice_stale_endpoint_deletion_witness:
  "es_Ports (dnsSlice [''10.244.1.5'']) =
     [\<lparr>port_Protocol = Some ProtocolTCP, port_Port = Some 53\<rparr>,
      \<lparr>port_Protocol = Some ProtocolUDP, port_Port = Some 53\<rparr>]
   \<and> issued (reconcileConntrackUponEndpointSliceEvents (dnsEnv kernelAccepts)
             (Some (dnsSlice [''10.244.1.5''])) (Some (dnsSlice [''10.244.1.9''])))
     = [\<lparr>ct_ip = ''10.244.1.5'', ct_port = 53, ct_protocol = ProtocolUDP,
         ct_filter = ConntrackReplyAnyIP, ct_labels = None\<rparr>]
   \<and> ending (reconcileConntrackUponEndpointSliceEvents (dnsEnv kernelAccepts)
             (Some (dnsSlice [''10.244.1.5''])) (Some (dnsSlice [''10.244.1.9''])))
     = Returned None
   \<and> reconcileConntrackUponEndpointSliceEvents (dnsEnv kernelAccepts) None
        (Some (dnsSlice [''10.244.1.9'']))
     = \<lparr>issued = [], logged = [], ending = Returned None\<rparr>
   \<and> issued (reconcileConntrackUponEndpointSliceEvents (dnsEnv kernelAccepts)
             (Some (dnsSlice [''10.244.1.5''])) (Some (dnsSlice [''10.244.1.5''])))
     = []"
proof -
  let ?env = "dnsEnv kernelAccepts"
  let ?old = "dnsSlice [''10.244.1.5'']"
  let ?new = "Some (dnsSlice [''10.244.1.9''])"
  note inst = endpointSlice_stale_endpoint_deletion[of ?env ?new]
  have hyp: "ServiceNamespacedNameFromEndpointSlice ?env ?old = Inr (''kube-system'', ''dns'') \<and>
        (GetService ?env ''kube-system'' ''dns'' = Inl NotFound \<and> Some dnsService = None
           \<or> (\<exists>s. GetService ?env ''kube-system'' ''dns'' = Inr s \<and> Some dnsService = Some s)) \<and>
        (\<forall>pt\<in>set (es_Ports ?old). port_Protocol pt \<noteq> None) \<and>
        filter (\<lambda>pt. port_Protocol pt = Some ProtocolUDP) (es_Ports ?old) =
          [\<lparr>port_Protocol = Some ProtocolUDP, port_Port = Some 53\<rparr>] \<and>
        concat (map ep_Addresses (es_Endpoints ?old)) = [''10.244.1.5''] \<and>
        (\<forall>n. ?new = Some n \<longrightarrow>
           \<not> DoesEndpointSliceContainEndpoint ?env n (ParseIPSloppyString ?env ''10.244.1.5'') 53
                ProtocolUDP (Some dnsService))"
    by (simp add: dnsEnv_def dnsSlice_def sliceHolds_def)
  have kept: "issued (reconcileConntrackUponEndpointSliceEvents ?env (Some ?old) (Some ?old)) = []"
    by (simp add: reconcileConntrackUponEndpointSliceEvents_def reconcileLoops_def dnsEnv_def
        dnsSlice_def IsNotFound_def NewAggregate_def stillInNewSlice_def sliceHolds_def Let_def)
  from inst[THEN conjunct2, THEN conjunct1, THEN spec, THEN spec, THEN spec, THEN spec,
      THEN spec, THEN spec, THEN mp, OF hyp] inst[THEN conjunct1] kept
  show ?thesis by (simp add: dnsEnv_def dnsSlice_def)
qed

text \<open>What the pass does when the lister fails with another error and the new slice is
  there: it returns the error, having asked for nothing.\<close>

lemma lookup_failure_returns_before_loops:
  assumes "ServiceNamespacedNameFromEndpointSlice env oldES = Inr (ns, nm)"
    and "GetService env ns nm = Inl err"
    and "\<not> IsNotFound err"
  shows "reconcileConntrackUponEndpointSliceEvents env (Some oldES) (Some newES) =
           \<lparr>issued = [], logged = [],
            ending = Returned (Some (ServiceRetrievalFailed (es_Namespace newES)
                                       (es_Name newES) err))\<rparr>"
  using assms by (simp add: reconcileConntrackUponEndpointSliceEvents_def)

text \<open>The claim fails when the lookup of the service fails. The old slice holds the one
  UDP endpoint \<open>10.244.1.5:53\<close>, the new slice holds \<open>10.244.1.9:53\<close> instead, and the
  lister answers with an error that is not not-found: the pass returns that error and
  asks for no deletion.\<close>

theorem endpointSlice_lookup_failure_counterexample:
  "es_Ports (dnsUDPSlice [''10.244.1.5'']) =
     [\<lparr>port_Protocol = Some ProtocolUDP, port_Port = Some 53\<rparr>]
   \<and> concat (map ep_Addresses (es_Endpoints (dnsUDPSlice [''10.244.1.5'']))) = [''10.244.1.5'']
   \<and> DoesEndpointSliceContainEndpoint brokenListerEnv (dnsUDPSlice [''10.244.1.9''])
        ''10.244.1.5'' 53 ProtocolUDP None = False
   \<and> reconcileConntrackUponEndpointSliceEvents brokenListerEnv
        (Some (dnsUDPSlice [''10.244.1.5''])) (Some (dnsUDPSlice [''10.244.1.9''])) =
       \<lparr>issued = [], logged = [],
        ending = Returned (Some (ServiceRetrievalFailed ''kube-system'' ''dns-x7k2p''
                                   (OtherError ''informer cache is not synced'')))\<rparr>"
  by (simp add: reconcileConntrackUponEndpointSliceEvents_def brokenListerEnv_def
      dnsUDPSlice_def sliceHolds_def IsNotFound_def)

text \<open>
  Claim C10. On a delete event (old slice there, new slice nil), when the service lookup
  fails with an error other than not-found, the pass does not return the lookup error:
  building the message reads \<^verbatim>\<open>newEndpointSlice.Namespace\<close> through the nil pointer
  and the call panics, before any deletion is asked for.
\<close>

theorem delete_event_lookup_failure_panics:
  assumes "ServiceNamespacedNameFromEndpointSlice env oldES = Inr (ns, nm)"
    and "GetService env ns nm = Inl err"
    and "\<not> IsNotFound err"
  shows "reconcileConntrackUponEndpointSliceEvents env (Some oldES) None =
           \<lparr>issued = [], logged = [], ending = Panicked\<rparr>
       \<and> (\<forall>e. ending (reconcileConntrackUponEndpointSliceEvents env (Some oldES) None) \<noteq>
                 Returned e)"
  using assms by (simp add: reconcileConntrackUponEndpointSliceEvents_def)

theorem delete_event_lookup_failure_panics_witness:
  "reconcileConntrackUponEndpointSliceEvents brokenListerEnv
       (Some (dnsSlice [''10.244.1.5''])) None =
     \<lparr>issued = [], logged = [], ending = Panicked\<rparr>"
proof -
  have a: "ServiceNamespacedNameFromEndpointSlice brokenListerEnv (dnsSlice [''10.244.1.5''])
             = Inr (''kube-system'', ''dns'')"
    by (simp add: brokenListerEnv_def dnsSlice_def)
  have b: "GetService brokenListerEnv ''kube-system'' ''dns'' =
             Inl (OtherError ''informer cache is not synced'')"
    by (simp add: brokenListerEnv_def)
  have c: "\<not> IsNotFound (OtherError ''informer cache is not synced'')"
    by (simp add: IsNotFound_def)
  from delete_event_lookup_failure_panics[OF a b c] show ?thesis by simp
qed

subsection \<open>Failures of single deletions\<close>

text \<open>The endpoint-slice pass asks for the same deletions whatever the kernel answers:
  a failed deletion aborts nothing.\<close>

lemma addressLoop_ignores_results:
  "fst (addressLoop (env\<lparr>DeleteConntrackServicePort := d\<rparr>) newES svc proto port addrs) =
   fst (addressLoop env newES svc proto port addrs)
   \<and> snd (snd (addressLoop (env\<lparr>DeleteConntrackServicePort := d\<rparr>) newES svc proto port addrs)) =
     snd (snd (addressLoop env newES svc proto port addrs))"
  by (induction addrs)
    (auto split: option.splits prod.splits simp: Let_def stillInNewSlice_def)

lemma endpointLoop_ignores_results:
  "fst (endpointLoop (env\<lparr>DeleteConntrackServicePort := d\<rparr>) newES svc proto port eps) =
   fst (endpointLoop env newES svc proto port eps)
   \<and> snd (snd (endpointLoop (env\<lparr>DeleteConntrackServicePort := d\<rparr>) newES svc proto port eps)) =
     snd (snd (endpointLoop env newES svc proto port eps))"
proof (induction eps)
  case Nil
  show ?case by simp
next
  case (Cons e eps)
  obtain r1 l1 k1 where a: "addressLoop env newES svc proto port (ep_Addresses e) = (r1, l1, k1)"
    by (cases "addressLoop env newES svc proto port (ep_Addresses e)") auto
  obtain r1' l1' k1' where a': "addressLoop (env\<lparr>DeleteConntrackServicePort := d\<rparr>) newES svc
      proto port (ep_Addresses e) = (r1', l1', k1')"
    by (cases "addressLoop (env\<lparr>DeleteConntrackServicePort := d\<rparr>) newES svc
      proto port (ep_Addresses e)") auto
  from a a' addressLoop_ignores_results[where env=env and d=d and newES=newES and svc=svc
      and proto=proto and port=port and addrs="ep_Addresses e"]
  have s1: "r1' = r1" "k1' = k1" by auto
  obtain r2 l2 k2 where b: "endpointLoop env newES svc proto port eps = (r2, l2, k2)"
    by (cases "endpointLoop env newES svc proto port eps") auto
  obtain r2' l2' k2' where b': "endpointLoop (env\<lparr>DeleteConntrackServicePort := d\<rparr>) newES svc
      proto port eps = (r2', l2', k2')"
    by (cases "endpointLoop (env\<lparr>DeleteConntrackServicePort := d\<rparr>) newES svc proto port eps")
      auto
  from b b' Cons have s2: "r2' = r2" "k2' = k2" by auto
  show ?case using a a' b b' s1 s2 by simp
qed

lemma portLoop_ignores_results:
  "fst (portLoop (env\<lparr>DeleteConntrackServicePort := d\<rparr>) newES svc eps ports) =
   fst (portLoop env newES svc eps ports)
   \<and> snd (snd (portLoop (env\<lparr>DeleteConntrackServicePort := d\<rparr>) newES svc eps ports)) =
     snd (snd (portLoop env newES svc eps ports))"
proof (induction ports)
  case Nil
  show ?case by simp
next
  case (Cons pt ports)
  show ?case
  proof (cases "port_Protocol pt")
    case None
    then show ?thesis by simp
  next
    case (Some proto)
    obtain r1 l1 k1 where a:
      "endpointLoop env newES svc proto (port_Port pt) eps = (r1, l1, k1)"
      by (cases "endpointLoop env newES svc proto (port_Port pt) eps") auto
    obtain r1' l1' k1' where a': "endpointLoop (env\<lparr>DeleteConntrackServicePort := d\<rparr>) newES svc
        proto (port_Port pt) eps = (r1', l1', k1')"
      by (cases "endpointLoop (env\<lparr>DeleteConntrackServicePort := d\<rparr>) newES svc
        proto (port_Port pt) eps") auto
    from a a' endpointLoop_ignores_results[where env=env and d=d and newES=newES and svc=svc
      and proto=proto and port="port_Port pt" and eps=eps]
    have s1: "r1' = r1" "k1' = k1" by auto
    obtain r2 l2 k2 where b: "portLoop env newES svc eps ports = (r2, l2, k2)"
      by (cases "portLoop env newES svc eps ports") auto
    obtain r2' l2' k2' where b': "portLoop (env\<lparr>DeleteConntrackServicePort := d\<rparr>) newES svc
        eps ports = (r2', l2', k2')"
      by (cases "portLoop (env\<lparr>DeleteConntrackServicePort := d\<rparr>) newES svc eps ports") auto
    from b b' Cons have s2: "r2' = r2" "k2' = k2" by auto
    show ?thesis using Some a a' b b' s1 s2 by (cases "proto = ProtocolUDP") auto
  qed
qed

lemma endpointSlice_pass_never_aborts:
  "issued (reconcileConntrackUponEndpointSliceEvents (env\<lparr>DeleteConntrackServicePort := d\<rparr>)
             oldES newES) =
   issued (reconcileConntrackUponEndpointSliceEvents env oldES newES)"
proof -
  have "\<And>old svc. issued (reconcileLoops (env\<lparr>DeleteConntrackServicePort := d\<rparr>) old newES svc) =
                  issued (reconcileLoops env old newES svc)"
  proof -
    fix old :: endpoint_slice and svc
    obtain r l k where a: "portLoop env newES svc (es_Endpoints old) (es_Ports old) = (r, l, k)"
      by (cases "portLoop env newES svc (es_Endpoints old) (es_Ports old)") auto
    obtain r' l' k' where a': "portLoop (env\<lparr>DeleteConntrackServicePort := d\<rparr>) newES svc
        (es_Endpoints old) (es_Ports old) = (r', l', k')"
      by (cases "portLoop (env\<lparr>DeleteConntrackServicePort := d\<rparr>) newES svc
        (es_Endpoints old) (es_Ports old)") auto
    from a a' portLoop_ignores_results[where env=env and d=d and newES=newES and svc=svc
        and eps="es_Endpoints old" and ports="es_Ports old"]
    have "r' = r" by auto
    then show "issued (reconcileLoops (env\<lparr>DeleteConntrackServicePort := d\<rparr>) old newES svc) =
                  issued (reconcileLoops env old newES svc)"
      using a a' by (simp add: reconcileLoops_def)
  qed
  then show ?thesis
    by (simp add: reconcileConntrackUponEndpointSliceEvents_def
        split: option.splits sum.splits prod.splits)
qed

text \<open>But the endpoint-slice pass never returns an aggregated error: \<^verbatim>\<open>errors\<close> is
  declared, never appended to, and aggregated at the end.\<close>

lemma endpointSlice_pass_never_aggregates:
  "ending (reconcileConntrackUponEndpointSliceEvents env oldES newES) \<noteq>
     Returned (Some (EsAggregate agg))"
  by (simp add: reconcileConntrackUponEndpointSliceEvents_def reconcileLoops_def
      NewAggregate_def split: option.splits sum.splits prod.splits)

text \<open>The external-gateway pass asks for one deletion per pod IP whatever the kernel
  answers, and returns every failure in its aggregate.\<close>

lemma podIPLoop_requests: "fst (podIPLoop env macs ips) = map (podIPRequest macs) ips"
  by (induction ips) (auto simp: Let_def split: prod.splits)

lemma podIPLoop_errors: "snd (podIPLoop env macs ips) = deleteFailures env macs ips"
  by (induction ips) (auto simp: Let_def deleteFailures_def split: prod.splits)

lemma podLoop_requests:
  "fst (podLoop env macs pods) =
     concat (map (\<lambda>p. map (podIPRequest macs) (fst (GetPodIPsOfNetwork env p))) pods)"
proof (induction pods)
  case Nil
  show ?case by simp
next
  case (Cons p pods)
  obtain ips err where g: "GetPodIPsOfNetwork env p = (ips, err)"
    by (cases "GetPodIPsOfNetwork env p")
  obtain r1 e1 where a: "podIPLoop env macs ips = (r1, e1)"
    by (cases "podIPLoop env macs ips")
  obtain r2 e2 where b: "podLoop env macs pods = (r2, e2)"
    by (cases "podLoop env macs pods")
  from a have "r1 = map (podIPRequest macs) ips"
    using podIPLoop_requests[of env macs ips] by simp
  moreover from b Cons
  have "r2 = concat (map (\<lambda>p. map (podIPRequest macs) (fst (GetPodIPsOfNetwork env p))) pods)"
    by simp
  ultimately show ?case using g a b by (simp add: Let_def)
qed

lemma podLoop_errors:
  "snd (podLoop env macs pods) =
     concat (map (\<lambda>p. fetchFailure env p @
                       deleteFailures env macs (fst (GetPodIPsOfNetwork env p))) pods)"
proof (induction pods)
  case Nil
  show ?case by simp
next
  case (Cons p pods)
  obtain ips err where g: "GetPodIPsOfNetwork env p = (ips, err)"
    by (cases "GetPodIPsOfNetwork env p")
  obtain r1 e1 where a: "podIPLoop env macs ips = (r1, e1)"
    by (cases "podIPLoop env macs ips")
  obtain r2 e2 where b: "podLoop env macs pods = (r2, e2)"
    by (cases "podLoop env macs pods")
  from a have "e1 = deleteFailures env macs ips"
    using podIPLoop_errors[of env macs ips] by simp
  moreover from b Cons
  have "e2 = concat (map (\<lambda>p. fetchFailure env p @
                       deleteFailures env macs (fst (GetPodIPsOfNetwork env p))) pods)"
    by simp
  ultimately show ?case using g a b
    by (simp add: Let_def fetchFailure_def split: option.splits)
qed

lemma externalGateway_pass_collects_failures:
  assumes "GetAdminPolicyBasedExternalRouteIPsForTargetNamespace env (ns_Name newNs) = Inr apbIPs"
    and "GetPods env (ns_Name newNs) = Inr pods"
  shows "syncConntrackForExternalGateways env newNs =
     (concat (map (\<lambda>p. map (podIPRequest (allowList env (gatewayIPSet env newNs apbIPs)))
                          (fst (GetPodIPsOfNetwork env p))) pods),
      map_option GwAggregate (NewAggregate
        (concat (map (\<lambda>p. fetchFailure env p @
                   deleteFailures env (allowList env (gatewayIPSet env newNs apbIPs))
                     (fst (GetPodIPsOfNetwork env p))) pods))))"
proof -
  let ?macs = "allowList env (gatewayIPSet env newNs apbIPs)"
  obtain r e where pl: "podLoop env ?macs pods = (r, e)"
    by (cases "podLoop env ?macs pods")
  from pl podLoop_requests[of env ?macs pods]
  have r: "r = concat (map (\<lambda>p. map (podIPRequest ?macs) (fst (GetPodIPsOfNetwork env p))) pods)"
    by simp
  from pl podLoop_errors[of env ?macs pods]
  have e: "e = concat (map (\<lambda>p. fetchFailure env p @
                   deleteFailures env ?macs (fst (GetPodIPsOfNetwork env p))) pods)"
    by simp
  show ?thesis using assms pl r e by (simp add: syncConntrackForExternalGateways_def)
qed

text \<open>
  Claim C8, at an input where the code departs from it. A delete event for a slice with
  two UDP endpoints, on a kernel that refuses both deletions: both are asked for (the
  first failure aborts nothing) and both failures are logged, but the pass returns
  \<^verbatim>\<open>nil\<close>, not an error that holds them.
\<close>

theorem endpointSlice_failures_not_returned:
  "reconcileConntrackUponEndpointSliceEvents (dnsEnv kernelRefuses)
       (Some (dnsSlice [''10.244.1.5'', ''10.244.1.6''])) None =
     \<lparr>issued = [servicePortRequest ''10.244.1.5'' 53 ProtocolUDP,
                servicePortRequest ''10.244.1.6'' 53 ProtocolUDP],
      logged = [(servicePortRequest ''10.244.1.5'' 53 ProtocolUDP, ''operation not permitted''),
                (servicePortRequest ''10.244.1.6'' 53 ProtocolUDP, ''operation not permitted'')],
      ending = Returned None\<rparr>"
  by (simp add: reconcileConntrackUponEndpointSliceEvents_def reconcileLoops_def dnsEnv_def
      dnsSlice_def kernelRefuses_def IsNotFound_def NewAggregate_def stillInNewSlice_def Let_def)

subsection \<open>External-gateway conntrack reconciliation\<close>

text \<open>The swap loop reverses the address.\<close>

lemma swap_ends:
  "(a @ (x # m @ [y]) @ b)[length a := y, length a + Suc (length m) := x] =
     (a @ [y]) @ m @ (x # b)"
  by (simp add: list_update_append nth_append)

lemma nth_ends:
  "(a @ (x # m @ [y]) @ b) ! length a = x"
  "(a @ (x # m @ [y]) @ b) ! (length a + Suc (length m)) = y"
  by (simp_all add: nth_append)

lemma reverseLoop_middle:
  "reverseLoop (int (length a)) (int (length a + length m) - 1) (a @ m @ b) = a @ rev m @ b"
proof (induction m arbitrary: a b rule: length_induct)
  case (1 m)
  show ?case
  proof (cases "length m \<le> 1")
    case True
    then have "rev m = m" by (cases m) auto
    moreover from True have "\<not> int (length a) < int (length a + length m) - 1" by simp
    ultimately show ?thesis by (subst reverseLoop.simps) simp
  next
    case False
    then obtain x t where t: "m = x # t" "t \<noteq> []" by (cases m) auto
    then obtain m' y where m: "m = x # m' @ [y]"
      using append_butlast_last_id[of t] by metis
    have lt: "int (length a) < int (length a + length m) - 1" using m by simp
    have j: "nat (int (length a + length m) - 1) = length a + Suc (length m')"
      using m by simp
    have step: "reverseLoop (int (length a)) (int (length a + length m) - 1) (a @ m @ b) =
        reverseLoop (int (length a) + 1) (int (length a + length m) - 1 - 1)
          ((a @ [y]) @ m' @ (x # b))"
      using lt
      apply (subst reverseLoop.simps)
      apply (simp only: if_True j nat_int)
      apply (simp only: m nth_ends)
      apply (simp only: swap_ends)
      done
    have "length m' < length m" using m by simp
    with 1 have "reverseLoop (int (length (a @ [y]))) (int (length (a @ [y]) + length m') - 1)
        ((a @ [y]) @ m' @ (x # b)) = (a @ [y]) @ rev m' @ (x # b)" by blast
    moreover have "int (length (a @ [y])) = int (length a) + 1" by simp
    moreover have "int (length (a @ [y]) + length m') - 1 = int (length a + length m) - 1 - 1"
      using m by simp
    ultimately show ?thesis using step m by (simp add: ac_simps)
  qed
qed

lemma reverseMAC_rev: "reverseMAC hwAddr = rev hwAddr"
  using reverseLoop_middle[of "[]" hwAddr "[]"] by (simp add: reverseMAC_def)

lemma reverseMAC_involution: "reverseMAC (reverseMAC hwAddr) = hwAddr"
  by (simp add: reverseMAC_rev)

lemma length_sentinelLabel: "length sentinelLabel = 25"
  by (simp add: sentinelLabel_def bytesOf_def)

lemma sentinel_is_no_reversed_address:
  assumes "length hwAddr \<noteq> 25"
  shows "reverseMAC hwAddr \<noteq> sentinelLabel"
proof
  assume e: "reverseMAC hwAddr = sentinelLabel"
  note n = assms
  from e have "length (rev hwAddr) = length sentinelLabel" by (simp add: reverseMAC_rev)
  with n length_sentinelLabel show False by simp
qed

lemma map_filter_all_None: "\<forall>x\<in>set xs. f x = None \<Longrightarrow> List.map_filter f xs = []"
  by (induction xs) simp_all

lemma set_setInsert: "set (setInsert s items) = set s \<union> set items"
proof -
  have "set (fold List.insert xs acc) = set acc \<union> set xs" for xs acc :: "string list"
    by (induction xs arbitrary: acc) auto
  then show ?thesis by (simp add: setInsert_def)
qed

lemma set_gatewayIPSet:
  "set (gatewayIPSet env newNs apbIPs) =
     set apbIPs
     \<union> set (strings_Split (case ns_Annotations newNs (ExternalGatewayPodIPsAnnotation env) of
                              None \<Rightarrow> [] | Some v \<Rightarrow> v) CHR '','')
     \<union> set (strings_Split (case ns_Annotations newNs (RoutingExternalGWsAnnotation env) of
                              None \<Rightarrow> [] | Some v \<Rightarrow> v) CHR '','')"
  by (simp add: gatewayIPSet_def set_setInsert annotation_def)

lemma sentinelLabel_bytes:
  "sentinelLabel = map (\<lambda>c. of_nat (of_char c)) ''does-not-contain-anything''"
  by (simp add: sentinelLabel_def bytesOf_def)

text \<open>
  Claim C3. In the external-gateway pass, when no IP of the computed gateway-IP set
  resolves to a hardware address (the set is empty, or every IP in it is empty, IPv6,
  unanswered, or answered with an empty address), the allow-list is the one sentinel
  label, the bytes of \<open>does-not-contain-anything\<close>; the sentinel is 25 bytes long, more
  than the 128 bits of a conntrack label, so it is the reversed form of no hardware
  address of up to 16 bytes; and the pass asks for one deletion for every IP of every
  local pod of the namespace, in order, each for that IP, port 0 (any port), UDP, the
  original destination, with that one-element allow-list. The gateway-IP set is made of
  the IPs of the policy lookup \<open>apbIPs\<close> and of the comma-separated fields of the two
  annotations; the local pods are the ones the informer lists for the namespace, and the
  IPs of a pod the ones \<^verbatim>\<open>util.GetPodIPsOfNetwork\<close> gives for the default network.
\<close>

theorem externalGateway_sentinel:
  assumes apb: "GetAdminPolicyBasedExternalRouteIPsForTargetNamespace env (ns_Name newNs) =
                  Inr apbIPs"
    and unresolved:
      "\<forall>gwIP \<in> set apbIPs
          \<union> set (strings_Split (case ns_Annotations newNs (ExternalGatewayPodIPsAnnotation env) of
                                   None \<Rightarrow> [] | Some v \<Rightarrow> v) CHR '','')
          \<union> set (strings_Split (case ns_Annotations newNs (RoutingExternalGWsAnnotation env) of
                                   None \<Rightarrow> [] | Some v \<Rightarrow> v) CHR '','').
         gwIP = [] \<or> IsIPv6String env gwIP
         \<or> (\<exists>e. GetMACAddressFromARP env gwIP = Inl e)
         \<or> GetMACAddressFromARP env gwIP = Inr []"
    and pods: "GetPods env (ns_Name newNs) = Inr pods"
  shows "allowList env (gatewayIPSet env newNs apbIPs) =
           [map (\<lambda>c. of_nat (of_char c)) ''does-not-contain-anything'']
       \<and> fst (syncConntrackForExternalGateways env newNs) =
           concat (map (\<lambda>p. map (\<lambda>ip. \<lparr>ct_ip = ip, ct_port = 0, ct_protocol = ProtocolUDP,
                                       ct_filter = ConntrackOrigDstIP,
                                       ct_labels = Some [map (\<lambda>c. of_nat (of_char c))
                                                          ''does-not-contain-anything'']\<rparr>)
                                (fst (GetPodIPsOfNetwork env p))) pods)
       \<and> length (map (\<lambda>c. of_nat (of_char c) :: byte) ''does-not-contain-anything'') = 25
       \<and> (\<forall>hwAddr. reverseMAC hwAddr = rev hwAddr)
       \<and> (\<forall>hwAddr. length hwAddr \<le> 16 \<longrightarrow>
             reverseMAC hwAddr \<noteq> map (\<lambda>c. of_nat (of_char c)) ''does-not-contain-anything'')"
proof -
  have none: "\<forall>gwIP\<in>set (gatewayIPSet env newNs apbIPs). resolveGateway env gwIP = None"
  proof
    fix gwIP assume "gwIP \<in> set (gatewayIPSet env newNs apbIPs)"
    with unresolved have "gwIP = [] \<or> IsIPv6String env gwIP
         \<or> (\<exists>e. GetMACAddressFromARP env gwIP = Inl e)
         \<or> GetMACAddressFromARP env gwIP = Inr []"
      unfolding set_gatewayIPSet by blast
    then show "resolveGateway env gwIP = None" by (auto simp: resolveGateway_def)
  qed
  have al: "allowList env (gatewayIPSet env newNs apbIPs) = [sentinelLabel]"
    using map_filter_all_None[OF none] by (simp add: allowList_def)
  have "fst (syncConntrackForExternalGateways env newNs) =
          fst (podLoop env [sentinelLabel] pods)"
    using apb pods al by (simp add: syncConntrackForExternalGateways_def split: prod.splits)
  then have rq: "fst (syncConntrackForExternalGateways env newNs) =
           concat (map (\<lambda>p. map (podIPRequest [sentinelLabel])
                                (fst (GetPodIPsOfNetwork env p))) pods)"
    by (simp add: podLoop_requests)
  have rq': "fst (syncConntrackForExternalGateways env newNs) =
           concat (map (\<lambda>p. map (\<lambda>ip. \<lparr>ct_ip = ip, ct_port = 0, ct_protocol = ProtocolUDP,
                                       ct_filter = ConntrackOrigDstIP,
                                       ct_labels = Some [sentinelLabel]\<rparr>)
                                (fst (GetPodIPsOfNetwork env p))) pods)"
  proof -
    have "podIPRequest [sentinelLabel] =
            (\<lambda>ip. \<lparr>ct_ip = ip, ct_port = 0, ct_protocol = ProtocolUDP,
                   ct_filter = ConntrackOrigDstIP, ct_labels = Some [sentinelLabel]\<rparr>)"
      by (rule ext) (simp add: podIPRequest_def)
    with rq show ?thesis by simp
  qed
  have far: "\<forall>hwAddr. length hwAddr \<le> 16 \<longrightarrow> reverseMAC hwAddr \<noteq> sentinelLabel"
    using sentinel_is_no_reversed_address by auto
  have len: "length sentinelLabel = 25" by (rule length_sentinelLabel)
  have rv: "\<forall>hwAddr :: byte list. reverseMAC hwAddr = rev hwAddr"
    by (simp add: reverseMAC_rev)
  from al rq' len rv far show ?thesis unfolding sentinelLabel_bytes by blast
qed

text \<open>The namespace names one gateway, \<open>192.168.10.1\<close>, and ARP gets no reply: the one
  local pod has an IPv4 and an IPv6 address, and a UDP purge with the sentinel allow-list
  is asked for both.\<close>

theorem externalGateway_sentinel_witness:
  "strings_Split ''192.168.10.1'' CHR '','' = [''192.168.10.1'']
   \<and> strings_Split [] CHR '','' = [[]]
   \<and> GetMACAddressFromARP (gwEnv arpSilent kernelAccepts) ''192.168.10.1'' = Inl ''no ARP reply''
   \<and> fst (syncConntrackForExternalGateways (gwEnv arpSilent kernelAccepts) gwNamespace) =
       [\<lparr>ct_ip = ''10.244.1.5'', ct_port = 0, ct_protocol = ProtocolUDP,
         ct_filter = ConntrackOrigDstIP,
         ct_labels = Some [[0x64, 0x6F, 0x65, 0x73, 0x2D, 0x6E, 0x6F, 0x74, 0x2D, 0x63, 0x6F,
                            0x6E, 0x74, 0x61, 0x69, 0x6E, 0x2D, 0x61, 0x6E, 0x79, 0x74, 0x68,
                            0x69, 0x6E, 0x67]]\<rparr>,
        \<lparr>ct_ip = ''fd00:10:244:1::5'', ct_port = 0, ct_protocol = ProtocolUDP,
         ct_filter = ConntrackOrigDstIP,
         ct_labels = Some [[0x64, 0x6F, 0x65, 0x73, 0x2D, 0x6E, 0x6F, 0x74, 0x2D, 0x63, 0x6F,
                            0x6E, 0x74, 0x61, 0x69, 0x6E, 0x2D, 0x61, 0x6E, 0x79, 0x74, 0x68,
                            0x69, 0x6E, 0x67]]\<rparr>]"
proof -
  let ?env = "gwEnv arpSilent kernelAccepts"
  have sp: "strings_Split ''192.168.10.1'' CHR '','' = [''192.168.10.1'']"
    "strings_Split [] CHR '','' = [[]]"
    by (simp_all add: strings_Split_def)
  have arp: "GetMACAddressFromARP ?env ''192.168.10.1'' = Inl ''no ARP reply''"
    by (simp add: gwEnv_def arpSilent_def)
  have a: "GetAdminPolicyBasedExternalRouteIPsForTargetNamespace ?env (ns_Name gwNamespace) =
             Inr []"
    by (simp add: gwEnv_def)
  have ann: "ns_Annotations gwNamespace (ExternalGatewayPodIPsAnnotation ?env) = None"
    "ns_Annotations gwNamespace (RoutingExternalGWsAnnotation ?env) = Some ''192.168.10.1''"
    by (simp_all add: gwEnv_def gwNamespace_def)
  have b: "\<forall>gwIP \<in> set []
          \<union> set (strings_Split (case ns_Annotations gwNamespace
                                        (ExternalGatewayPodIPsAnnotation ?env) of
                                   None \<Rightarrow> [] | Some v \<Rightarrow> v) CHR '','')
          \<union> set (strings_Split (case ns_Annotations gwNamespace
                                        (RoutingExternalGWsAnnotation ?env) of
                                   None \<Rightarrow> [] | Some v \<Rightarrow> v) CHR '','').
         gwIP = [] \<or> IsIPv6String ?env gwIP
         \<or> (\<exists>e. GetMACAddressFromARP ?env gwIP = Inl e)
         \<or> GetMACAddressFromARP ?env gwIP = Inr []"
    unfolding ann by (simp add: sp arp)
  have c: "GetPods ?env (ns_Name gwNamespace) = Inr [gwPod]"
    by (simp add: gwEnv_def)
  from externalGateway_sentinel[OF a b c, THEN conjunct2, THEN conjunct1] sp arp show ?thesis
    by (simp add: gwEnv_def)
qed

text \<open>When the gateway answers, the allow-list is its hardware address reversed, and
  the sentinel is not used.\<close>

lemma externalGateway_resolved_example:
  "fst (syncConntrackForExternalGateways
          (gwEnv (\<lambda>ip. Inr [0x0A, 0x58, 0x0A, 0x00, 0x00, 0x01]) kernelAccepts) gwNamespace) =
       [\<lparr>ct_ip = ''10.244.1.5'', ct_port = 0, ct_protocol = ProtocolUDP,
         ct_filter = ConntrackOrigDstIP,
         ct_labels = Some [[0x01, 0x00, 0x00, 0x0A, 0x58, 0x0A]]\<rparr>,
        \<lparr>ct_ip = ''fd00:10:244:1::5'', ct_port = 0, ct_protocol = ProtocolUDP,
         ct_filter = ConntrackOrigDstIP,
         ct_labels = Some [[0x01, 0x00, 0x00, 0x0A, 0x58, 0x0A]]\<rparr>]"
  by (simp add: syncConntrackForExternalGateways_def gwEnv_def gwNamespace_def
      gatewayIPSet_def setInsert_def annotation_def strings_Split_def allowList_def
      List.map_filter_def resolveGateway_def reverseMAC_rev podIPRequest_def Let_def)

text \<open>When the informer cannot list the pods of the namespace the pass returns that
  error and asks for nothing.\<close>

lemma externalGateway_pod_lookup_failure:
  assumes "GetAdminPolicyBasedExternalRouteIPsForTargetNamespace env (ns_Name newNs) = Inr apbIPs"
    and "GetPods env (ns_Name newNs) = Inl e"
  shows "syncConntrackForExternalGateways env newNs = ([], Some (UnableToGetPods e))"
  using assms by (simp add: syncConntrackForExternalGateways_def)

subsection \<open>Heartbeat validity\<close>

lemma leaseLoop_true:
  "leaseLoop clock k ls = Returned (True, e) \<Longrightarrow>
     e = None \<and> (\<forall>i<length ls. leaseWellFormed (ls ! i)
                     \<and> \<not> leaseExpiredAt (clock (k + i)) (ls ! i))"
proof (induction ls arbitrary: k)
  case Nil
  then show ?case by simp
next
  case (Cons l ls)
  from Cons.prems obtain r d where rd: "lease_RenewTime l = Some r"
      "lease_LeaseDurationSeconds l = Some d"
    and ne: "\<not> leaseExpired (clock k) r d"
    and rest: "leaseLoop clock (Suc k) ls = Returned (True, e)"
    by (auto split: option.splits if_splits)
  from Cons.IH[OF rest] have ih: "e = None"
    "\<forall>i<length ls. leaseWellFormed (ls ! i) \<and> \<not> leaseExpiredAt (clock (Suc k + i)) (ls ! i)"
    by auto
  show ?case
  proof (intro conjI allI impI)
    show "e = None" by fact
  next
    fix i assume "i < length (l # ls)"
    then show "leaseWellFormed ((l # ls) ! i)"
      using rd ih by (cases i) (auto simp: leaseWellFormed_def)
  next
    fix i assume "i < length (l # ls)"
    then show "\<not> leaseExpiredAt (clock (k + i)) ((l # ls) ! i)"
      using rd ne ih by (cases i) (auto simp: leaseExpiredAt_def)
  qed
qed

lemma leaseLoop_expired:
  assumes "\<forall>l\<in>set ls. leaseWellFormed l"
    and "\<exists>i<length ls. leaseExpiredAt (clock (k + i)) (ls ! i)"
  shows "\<exists>i<length ls. leaseExpiredAt (clock (k + i)) (ls ! i) \<and>
           leaseLoop clock k ls = Returned (False, Some (LeaseExpired (lease_Name (ls ! i))))"
  using assms
proof (induction ls arbitrary: k)
  case Nil
  then show ?case by simp
next
  case (Cons l ls)
  from Cons.prems(1) obtain r d where rd: "lease_RenewTime l = Some r"
      "lease_LeaseDurationSeconds l = Some d"
    by (auto simp: leaseWellFormed_def)
  show ?case
  proof (cases "leaseExpired (clock k) r d")
    case True
    then have "leaseExpiredAt (clock (k + 0)) ((l # ls) ! 0) \<and>
           leaseLoop clock k (l # ls) =
             Returned (False, Some (LeaseExpired (lease_Name ((l # ls) ! 0))))"
      using rd by (simp add: leaseExpiredAt_def)
    then show ?thesis by (intro exI[of _ 0]) simp
  next
    case False
    from Cons.prems(2) obtain i where i: "i < length (l # ls)"
      "leaseExpiredAt (clock (k + i)) ((l # ls) ! i)" by blast
    with False rd obtain j where j: "i = Suc j" by (cases i) (auto simp: leaseExpiredAt_def)
    with i have "\<exists>i<length ls. leaseExpiredAt (clock (Suc k + i)) (ls ! i)" by auto
    from Cons.IH[OF _ this] Cons.prems(1)
    obtain m where m: "m < length ls" "leaseExpiredAt (clock (Suc k + m)) (ls ! m)"
      "leaseLoop clock (Suc k) ls = Returned (False, Some (LeaseExpired (lease_Name (ls ! m))))"
      by auto
    then have "Suc m < length (l # ls) \<and>
           leaseExpiredAt (clock (k + Suc m)) ((l # ls) ! Suc m) \<and>
           leaseLoop clock k (l # ls) =
             Returned (False, Some (LeaseExpired (lease_Name ((l # ls) ! Suc m))))"
      using rd False by simp
    then show ?thesis by blast
  qed
qed

lemma leaseLoop_valid:
  assumes "\<forall>l\<in>set ls. leaseWellFormed l"
    and "\<forall>i<length ls. \<not> leaseExpiredAt (clock (k + i)) (ls ! i)"
  shows "leaseLoop clock k ls = Returned (True, None)"
  using assms
proof (induction ls arbitrary: k)
  case Nil
  then show ?case by simp
next
  case (Cons l ls)
  from Cons.prems(1) obtain r d where rd: "lease_RenewTime l = Some r"
      "lease_LeaseDurationSeconds l = Some d"
    by (auto simp: leaseWellFormed_def)
  from Cons.prems(2) have "\<not> leaseExpiredAt (clock (k + 0)) ((l # ls) ! 0)" by blast
  then have ne: "\<not> leaseExpired (clock k) r d" using rd by (simp add: leaseExpiredAt_def)
  have "\<forall>i<length ls. \<not> leaseExpiredAt (clock (Suc k + i)) (ls ! i)"
  proof (intro allI impI)
    fix i assume "i < length ls"
    then have "Suc i < length (l # ls)" by simp
    with Cons.prems(2) have "\<not> leaseExpiredAt (clock (k + Suc i)) ((l # ls) ! Suc i)" by blast
    then show "\<not> leaseExpiredAt (clock (Suc k + i)) (ls ! i)" by simp
  qed
  with Cons.IH[of "Suc k"] Cons.prems(1)
  have "leaseLoop clock (Suc k) ls = Returned (True, None)" by simp
  then show ?case using rd ne by simp
qed

text \<open>A lease is expired at \<open>now\<close> when it carries a renew time \<open>r\<close> and a duration
  of \<open>d\<close> seconds with \<open>r + d s < now\<close>, times in nanoseconds.\<close>

lemma leaseExpiredAt_formula:
  "leaseExpiredAt now l =
     (\<exists>r d. lease_RenewTime l = Some r \<and> lease_LeaseDurationSeconds l = Some d
            \<and> r + 1000000000 * sint d < now)"
  by (auto simp: leaseExpiredAt_def leaseExpired_def leaseDuration_def split: option.splits)

text \<open>
  What \<^verbatim>\<open>isHeartBeatValid\<close> does on lists of leases that all carry a renew time and
  a duration, as the leases that \<^verbatim>\<open>createLeaseSpec\<close> writes do. It returns false
  with an error when the list of leases of the namespace is empty. When at least one
  listed lease satisfies \<open>renewTime + leaseDurationSeconds < now\<close> (\<open>now\<close> being the
  clock reading taken for that lease) it never returns true, whatever the other leases
  are, and on such a list it returns false with the error naming an expired lease. It
  returns true only when the list is not empty and no lease is expired, and then with
  no error; on such a list that is also sufficient.
\<close>

lemma isHeartBeatValid_complete_leases:
  "(listLeases ns = Inr [] \<longrightarrow>
      isHeartBeatValid listLeases clock ns = Returned (False, Some (NoLeaseFound ns)))
   \<and> (\<forall>items. listLeases ns = Inr items
          \<and> (\<exists>i<length items. leaseExpiredAt (clock i) (items ! i)) \<longrightarrow>
        (\<forall>e. isHeartBeatValid listLeases clock ns \<noteq> Returned (True, e))
        \<and> ((\<forall>l\<in>set items. leaseWellFormed l) \<longrightarrow>
             (\<exists>i<length items. leaseExpiredAt (clock i) (items ! i) \<and>
                isHeartBeatValid listLeases clock ns =
                  Returned (False, Some (LeaseExpired (lease_Name (items ! i)))))))
   \<and> (\<forall>e. isHeartBeatValid listLeases clock ns = Returned (True, e) \<longrightarrow>
        e = None \<and> (\<exists>items. listLeases ns = Inr items \<and> items \<noteq> []
                       \<and> (\<forall>i<length items. \<not> leaseExpiredAt (clock i) (items ! i))))
   \<and> (\<forall>items. listLeases ns = Inr items \<and> items \<noteq> []
          \<and> (\<forall>l\<in>set items. leaseWellFormed l)
          \<and> (\<forall>i<length items. \<not> leaseExpiredAt (clock i) (items ! i)) \<longrightarrow>
        isHeartBeatValid listLeases clock ns = Returned (True, None))"
proof -
  have true_only: "e = None \<and> (\<exists>items. listLeases ns = Inr items \<and> items \<noteq> []
                       \<and> (\<forall>i<length items. \<not> leaseExpiredAt (clock i) (items ! i)))"
    if t: "isHeartBeatValid listLeases clock ns = Returned (True, e)" for e
  proof -
    from t obtain items where it: "listLeases ns = Inr items" "items \<noteq> []"
      and ll: "leaseLoop clock 0 items = Returned (True, e)"
      by (auto simp: isHeartBeatValid_def split: sum.splits if_splits)
    from leaseLoop_true[OF ll] it show ?thesis by simp
  qed
  have p1: "listLeases ns = Inr [] \<longrightarrow>
      isHeartBeatValid listLeases clock ns = Returned (False, Some (NoLeaseFound ns))"
    by (simp add: isHeartBeatValid_def)
  have p2: "(\<forall>e. isHeartBeatValid listLeases clock ns \<noteq> Returned (True, e))
        \<and> ((\<forall>l\<in>set items. leaseWellFormed l) \<longrightarrow>
             (\<exists>i<length items. leaseExpiredAt (clock i) (items ! i) \<and>
                isHeartBeatValid listLeases clock ns =
                  Returned (False, Some (LeaseExpired (lease_Name (items ! i))))))"
    if h: "listLeases ns = Inr items \<and> (\<exists>i<length items. leaseExpiredAt (clock i) (items ! i))"
    for items
  proof (intro conjI allI impI)
    fix e
    show "isHeartBeatValid listLeases clock ns \<noteq> Returned (True, e)"
    proof
      assume "isHeartBeatValid listLeases clock ns = Returned (True, e)"
      from true_only[OF this] h show False by auto
    qed
  next
    assume wf: "\<forall>l\<in>set items. leaseWellFormed l"
    from h have ne: "items \<noteq> []" by auto
    from h have "\<exists>i<length items. leaseExpiredAt (clock (0 + i)) (items ! i)" by simp
    from leaseLoop_expired[OF wf this] h ne
    show "\<exists>i<length items. leaseExpiredAt (clock i) (items ! i) \<and>
                isHeartBeatValid listLeases clock ns =
                  Returned (False, Some (LeaseExpired (lease_Name (items ! i))))"
      by (simp add: isHeartBeatValid_def)
  qed
  have p4: "isHeartBeatValid listLeases clock ns = Returned (True, None)"
    if h: "listLeases ns = Inr items \<and> items \<noteq> []
          \<and> (\<forall>l\<in>set items. leaseWellFormed l)
          \<and> (\<forall>i<length items. \<not> leaseExpiredAt (clock i) (items ! i))" for items
  proof -
    from h have "\<forall>i<length items. \<not> leaseExpiredAt (clock (0 + i)) (items ! i)" by simp
    with h leaseLoop_valid[of items clock 0] show ?thesis
      by (simp add: isHeartBeatValid_def)
  qed
  from p1 p2 true_only p4 show ?thesis by blast
qed

text \<open>At time 100 s the lease \<open>dpu-a\<close> (renewed at 95 s, 40 s long) is live and the
  lease \<open>dpu-b\<close> (renewed at 50 s) is stale: the check fails, naming \<open>dpu-b\<close>.\<close>

lemma isHeartBeatValid_two_leases:
  "leaseExpiredAt 100000000000 staleLease
   \<and> \<not> leaseExpiredAt 100000000000 freshLease
   \<and> isHeartBeatValid twoLeases (frozenClock 100000000000) ''dpu-lease-zone'' \<noteq>
       Returned (True, None)
   \<and> isHeartBeatValid twoLeases (frozenClock 100000000000) ''dpu-lease-zone'' =
       Returned (False, Some (LeaseExpired ''dpu-b''))"
proof -
  have a: "leaseExpiredAt 100000000000 staleLease"
    by (simp add: leaseExpiredAt_def staleLease_def leaseExpired_def leaseDuration_def)
  have b: "\<not> leaseExpiredAt 100000000000 freshLease"
    by (simp add: leaseExpiredAt_def freshLease_def leaseExpired_def leaseDuration_def)
  have h: "twoLeases ''dpu-lease-zone'' = Inr [freshLease, staleLease]
          \<and> (\<exists>i<length [freshLease, staleLease].
                leaseExpiredAt (frozenClock 100000000000 i) ([freshLease, staleLease] ! i))"
    using a by (auto simp: twoLeases_def frozenClock_def intro: exI[of _ 1])
  note inst = isHeartBeatValid_complete_leases[of twoLeases "''dpu-lease-zone''"
      "frozenClock 100000000000", THEN conjunct2, THEN conjunct1, rule_format, OF h]
  have wf: "leaseWellFormed l" if "l \<in> set [freshLease, staleLease]" for l
    using that by (auto simp: leaseWellFormed_def freshLease_def staleLease_def)
  from inst[THEN conjunct2, rule_format, OF wf]
  obtain i where i: "i < length [freshLease, staleLease]"
    "leaseExpiredAt (frozenClock 100000000000 i) ([freshLease, staleLease] ! i)"
    "isHeartBeatValid twoLeases (frozenClock 100000000000) ''dpu-lease-zone'' =
       Returned (False, Some (LeaseExpired (lease_Name ([freshLease, staleLease] ! i))))"
    by blast
  from i(1) have "i = 0 \<or> i = 1" by auto
  with i(2) b have "i = 1" by (auto simp: frozenClock_def)
  with i(3) have c: "isHeartBeatValid twoLeases (frozenClock 100000000000) ''dpu-lease-zone'' =
       Returned (False, Some (LeaseExpired ''dpu-b''))"
    by (simp add: staleLease_def)
  from a b c inst[THEN conjunct1, rule_format, of None] show ?thesis by simp
qed

text \<open>The duration counts: at 100 s a lease of 10 seconds renewed at 85 s is expired, a
  lease of 40 seconds renewed at the same time would not be.\<close>

lemma isHeartBeatValid_short_lease:
  "isHeartBeatValid (\<lambda>ns. Inr [freshLease, shortLease]) (frozenClock 100000000000)
     ''dpu-lease-zone'' = Returned (False, Some (LeaseExpired ''dpu-d''))
   \<and> isHeartBeatValid
        (\<lambda>ns. Inr [freshLease, shortLease\<lparr>lease_LeaseDurationSeconds := Some 40\<rparr>])
        (frozenClock 100000000000) ''dpu-lease-zone'' = Returned (True, None)"
  by (simp add: isHeartBeatValid_def freshLease_def shortLease_def frozenClock_def
      leaseExpired_def leaseDuration_def)

text \<open>
  Claim C9, at an input where the code departs from it. The namespace lists the lease
  \<open>dpu-c\<close>, whose \<^verbatim>\<open>spec.renewTime\<close> is not set, and then the lease \<open>dpu-b\<close>, renewed
  at 50 s for 40 s; it is now 100 s. The lease \<open>dpu-b\<close> satisfies
  \<open>renewTime + leaseDurationSeconds < now\<close>, so the check is to return false. It does
  not return: reading \<^verbatim>\<open>lease.Spec.RenewTime.Time\<close> of \<open>dpu-c\<close> goes through a nil
  pointer and the call panics. With \<open>dpu-b\<close> listed first, or beside a lease that
  carries its renew time, the same check returns false for \<open>dpu-b\<close>.
\<close>

theorem isHeartBeatValid_unset_renewTime_panics:
  "lease_RenewTime unrenewedLease = None
   \<and> lease_RenewTime staleLease = Some 50000000000
   \<and> lease_LeaseDurationSeconds staleLease = Some 40
   \<and> (50000000000 + 1000000000 * 40 < (100000000000 :: int))
   \<and> isHeartBeatValid (\<lambda>ns. Inr [unrenewedLease, staleLease]) (frozenClock 100000000000)
        ''dpu-lease-zone'' = Panicked
   \<and> isHeartBeatValid (\<lambda>ns. Inr [staleLease, unrenewedLease]) (frozenClock 100000000000)
        ''dpu-lease-zone'' = Returned (False, Some (LeaseExpired ''dpu-b''))
   \<and> isHeartBeatValid (\<lambda>ns. Inr [freshLease, staleLease]) (frozenClock 100000000000)
        ''dpu-lease-zone'' = Returned (False, Some (LeaseExpired ''dpu-b''))"
  by (simp add: isHeartBeatValid_def unrenewedLease_def staleLease_def freshLease_def
      frozenClock_def leaseExpired_def leaseDuration_def)
subsection \<open>The poll loop\<close>

text \<open>Every 500 ms for 300 s: at least one invocation and at most 601, whatever the
  scheduling.\<close>

lemma pollAttempts_Start:
  "pollAttempts (500 * Millisecond) (300 * Second) sched = max 1 (min sched 601)"
  by (simp add: pollAttempts_def Millisecond_def Second_def)

lemma pollAttempts_bounds:
  "1 \<le> pollAttempts interval timeout sched
   \<and> (pollAttempts interval timeout sched - 1) * interval \<le> timeout"
proof -
  have "pollAttempts interval timeout sched - 1 \<le> timeout div interval"
    by (simp add: pollAttempts_def)
  then have "(pollAttempts interval timeout sched - 1) * interval \<le> (timeout div interval) * interval"
    by (rule mult_le_mono1)
  also have "\<dots> \<le> timeout" by simp
  finally show ?thesis by (simp add: pollAttempts_def)
qed

text \<open>A way to run the loop on a numeral.\<close>

lemma pollLoop_unfold:
  "0 < n \<Longrightarrow> pollLoop n k condition s =
     (case condition k s of
        (ok, s') \<Rightarrow> if ok then (True, Suc k, s') else pollLoop (n - 1) (Suc k) condition s')"
  by (cases n) (auto split: prod.splits)

text \<open>What holds of the variables at the start and is kept by every invocation holds at
  the end; a poll that succeeds ends with the result of an invocation that reported
  true; a poll that fails has made all its invocations.\<close>

lemma pollLoop_invariant:
  assumes "P s" and "\<And>k s. P s \<Longrightarrow> P (snd (condition k s))"
  shows "P (snd (snd (pollLoop n k condition s)))"
  using assms(1)
proof (induction n arbitrary: k s)
  case 0
  then show ?case by simp
next
  case (Suc n)
  obtain ok s' where c: "condition k s = (ok, s')" by (cases "condition k s")
  from assms(2)[OF Suc.prems, of k] c have "P s'" by simp
  from Suc.IH[OF this] c Suc.prems \<open>P s'\<close> show ?case by simp
qed

lemma pollLoop_count:
  "fst (snd (pollLoop n k condition s)) \<le> k + n
   \<and> (\<not> fst (pollLoop n k condition s) \<longrightarrow> fst (snd (pollLoop n k condition s)) = k + n)"
proof (induction n arbitrary: k s)
  case 0
  show ?case by simp
next
  case (Suc n)
  obtain ok s' where c: "condition k s = (ok, s')" by (cases "condition k s")
  from Suc[of "Suc k" s'] c show ?case by simp
qed

lemma pollLoop_verdict:
  assumes "\<And>k s. fst (condition k s) = Q (snd (condition k s))" and "\<not> Q s"
  shows "fst (pollLoop n k condition s) = Q (snd (snd (pollLoop n k condition s)))"
  using assms(2)
proof (induction n arbitrary: k s)
  case 0
  then show ?case by simp
next
  case (Suc n)
  obtain ok s' where c: "condition k s = (ok, s')" by (cases "condition k s")
  from assms(1)[of k s] c have q: "ok = Q s'" by simp
  show ?case
  proof (cases ok)
    case True
    with c q show ?thesis by simp
  next
    case False
    with q have "\<not> Q s'" by simp
    from Suc.IH[OF this] c False show ?thesis by simp
  qed
qed

text \<open>A condition whose verdict at pass \<open>k\<close> does not depend on the variables: the poll
  stops at the first pass whose verdict is true, and ends after the last pass when there
  is none.\<close>

lemma pollLoop_first_true:
  assumes "\<And>k s. fst (condition k s) = v k"
    and "j < n" and "v (k + j)" and "\<forall>i<j. \<not> v (k + i)"
  shows "\<exists>s0. pollLoop n k condition s = (True, Suc (k + j), snd (condition (k + j) s0))"
  using assms(2-4)
proof (induction n arbitrary: k s j)
  case 0
  then show ?case by simp
next
  case (Suc n)
  obtain ok s' where c: "condition k s = (ok, s')" by (cases "condition k s")
  from assms(1)[of k s] c have ok: "ok = v k" by simp
  show ?case
  proof (cases j)
    case 0
    with Suc.prems ok have ok by simp
    with c 0 have "pollLoop (Suc n) k condition s = (True, Suc (k + j), snd (condition (k + j) s))"
      by simp
    then show ?thesis by blast
  next
    case (Suc j')
    with Suc.prems have "\<not> v (k + 0)" by blast
    with ok have nok: "\<not> ok" by simp
    from Suc Suc.prems have a: "j' < n" and b: "v (Suc k + j')" by simp_all
    have "\<forall>i<j'. \<not> v (Suc k + i)"
    proof (intro allI impI)
      fix i assume "i < j'"
      with Suc have "Suc i < j" by simp
      with Suc.prems(3) have "\<not> v (k + Suc i)" by blast
      then show "\<not> v (Suc k + i)" by simp
    qed
    from Suc.IH[OF a b this, of s'] obtain s0 where
      "pollLoop n (Suc k) condition s' = (True, Suc (Suc k + j'), snd (condition (Suc k + j') s0))"
      by blast
    with c nok Suc show ?thesis by auto
  qed
qed

lemma pollLoop_never_true:
  assumes "\<And>k s. fst (condition k s) = v k"
    and "\<forall>i<Suc n. \<not> v (k + i)"
  shows "\<exists>s0. pollLoop (Suc n) k condition s = (False, Suc (k + n), snd (condition (k + n) s0))"
  using assms(2)
proof (induction n arbitrary: k s)
  case 0
  obtain ok s' where c: "condition k s = (ok, s')" by (cases "condition k s")
  from assms(1)[of k s] c 0 have "\<not> ok" by simp
  with c have "pollLoop (Suc 0) k condition s = (False, Suc (k + 0), snd (condition (k + 0) s))"
    by simp
  then show ?case by blast
next
  case (Suc n)
  obtain ok s' where c: "condition k s = (ok, s')" by (cases "condition k s")
  from Suc.prems have "\<not> v (k + 0)" by blast
  with assms(1)[of k s] c have nok: "\<not> ok" by simp
  have "\<forall>i<Suc n. \<not> v (Suc k + i)"
  proof (intro allI impI)
    fix i assume "i < Suc n"
    then have "Suc i < Suc (Suc n)" by simp
    with Suc.prems have "\<not> v (k + Suc i)" by blast
    then show "\<not> v (Suc k + i)" by simp
  qed
  from Suc.IH[OF this, of s'] obtain s0 where
    "pollLoop (Suc n) (Suc k) condition s' =
       (False, Suc (Suc k + n), snd (condition (Suc k + n) s0))" by blast
  with c nok show ?case by auto
qed

subsection \<open>The zone-match wait\<close>

lemma zoneCondition_verdict:
  "fst (zoneCondition cfg env k vars) = (observedZone cfg (env k) = Some (cfg_DefaultZone cfg))"
  by (auto simp: zoneCondition_def observedZone_def split: prod.splits option.splits)

lemma zoneCondition_match:
  "observedZone cfg (env k) = Some (cfg_DefaultZone cfg) \<Longrightarrow>
     sbZone (snd (zoneCondition cfg env k vars)) = cfg_DefaultZone cfg"
  by (auto simp: zoneCondition_def observedZone_def split: prod.splits option.splits)

lemma zoneCondition_mismatch:
  "observedZone cfg (env k) = Some z \<Longrightarrow> z \<noteq> cfg_DefaultZone cfg \<Longrightarrow>
     zone_err1 (snd (zoneCondition cfg env k vars)) =
       Some (ZoneMismatch (cfg_name cfg) (cfg_DefaultZone cfg) z)"
  by (auto simp: zoneCondition_def observedZone_def split: prod.splits option.splits)

lemma zoneCondition_read_failure:
  "zoneReadError cfg (env k) = Some e \<Longrightarrow>
     zone_err1 (snd (zoneCondition cfg env k vars)) = Some (FailedToGetZoneName e)"
  by (auto simp: zoneCondition_def zoneReadError_def split: prod.splits option.splits)

text \<open>What a pass reads, in terms of the answer of \<^verbatim>\<open>ovn-sbctl\<close>.\<close>

lemma observedZone_reads:
  "observedZone cfg c =
     (case RunOVNSbctl c [''get'', ''SB_Global'', ''.'', ''options:name''] of
        (out, serr, err) \<Rightarrow>
          (case err of
             None \<Rightarrow> Some out
           | Some e \<Rightarrow>
               if strings_Contains serr ''ovn-sbctl: no key \"name\" in SB_Global record''
               then Some (cfg_OvnDefaultZone cfg) else None))"
  by (simp add: observedZone_def getOVNSBZone_def split: prod.splits option.splits)

lemma zoneReadError_reads:
  "zoneReadError cfg c =
     (case RunOVNSbctl c [''get'', ''SB_Global'', ''.'', ''options:name''] of
        (out, serr, err) \<Rightarrow>
          (case err of
             None \<Rightarrow> None
           | Some e \<Rightarrow>
               if strings_Contains serr ''ovn-sbctl: no key \"name\" in SB_Global record''
               then None else Some e))"
  by (simp add: zoneReadError_def getOVNSBZone_def split: prod.splits option.splits)

text \<open>The wait over \<open>n\<close> invocations.\<close>

lemma zonePoll_first_match:
  assumes "j < pollAttempts (500 * Millisecond) (300 * Second) sched"
    and "observedZone cfg (env j) = Some (cfg_DefaultZone cfg)"
    and "\<forall>i<j. observedZone cfg (env i) \<noteq> Some (cfg_DefaultZone cfg)"
  shows "\<exists>s0. zonePoll cfg sched env = (True, Suc j, snd (zoneCondition cfg env j s0))"
proof -
  let ?v = "\<lambda>k. observedZone cfg (env k) = Some (cfg_DefaultZone cfg)"
  from assms have "?v (0 + j)" "\<forall>i<j. \<not> ?v (0 + i)" by simp_all
  from pollLoop_first_true[of "zoneCondition cfg env" ?v j _ 0, OF zoneCondition_verdict assms(1) this]
  show ?thesis by (simp add: zonePoll_def PollUntilContextTimeout_def)
qed

lemma zonePoll_no_match:
  assumes "n = pollAttempts (500 * Millisecond) (300 * Second) sched"
    and "\<forall>i<n. observedZone cfg (env i) \<noteq> Some (cfg_DefaultZone cfg)"
  shows "\<exists>s0. zonePoll cfg sched env = (False, n, snd (zoneCondition cfg env (n - 1) s0))"
proof -
  let ?v = "\<lambda>k. observedZone cfg (env k) = Some (cfg_DefaultZone cfg)"
  from assms(1) pollAttempts_bounds[of "500 * Millisecond" "300 * Second" sched]
  have "1 \<le> n" by simp
  then obtain m where m: "n = Suc m" by (cases n) auto
  with assms(2) have "\<forall>i<Suc m. \<not> ?v (0 + i)" by simp
  from pollLoop_never_true[of "zoneCondition cfg env" ?v m 0, OF zoneCondition_verdict this]
  show ?thesis using m assms(1) by (simp add: zonePoll_def PollUntilContextTimeout_def)
qed

text \<open>
  Claim C5, as the code has it. The zone-match wait polls every 500 ms for 300 s: it
  makes \<open>n\<close> invocations, at least one and at most 601 (no tick due after the deadline
  starts one). It succeeds at the first iteration \<open>j\<close> whose read gives the desired
  zone, after \<open>j + 1\<close> invocations. When none of the \<open>n\<close> iterations matches it fails after \<open>n\<close>
  invocations with an error that carries the outcome of the last iteration: the
  mismatched zone that iteration read or, when its read failed, the error of that read
  and no zone. What an iteration reads is the answer of
  \<^verbatim>\<open>ovn-sbctl get SB_Global . options:name\<close>: its output when the command succeeds,
  the configured default zone when it fails for the missing key, nothing otherwise.
\<close>

theorem zone_match_wait_last_iteration:
  assumes "\<not> cfg_ModeDPUHost cfg"
    and "n = pollAttempts (500 * Millisecond) (300 * Second) sched"
  shows "1 \<le> n \<and> n \<le> 601
   \<and> (\<forall>c. observedZone cfg c =
          (case RunOVNSbctl c [''get'', ''SB_Global'', ''.'', ''options:name''] of
             (out, serr, err) \<Rightarrow>
               (case err of
                  None \<Rightarrow> Some out
                | Some e \<Rightarrow>
                    if strings_Contains serr ''ovn-sbctl: no key \"name\" in SB_Global record''
                    then Some (cfg_OvnDefaultZone cfg) else None)))
   \<and> (\<forall>c. zoneReadError cfg c =
          (case RunOVNSbctl c [''get'', ''SB_Global'', ''.'', ''options:name''] of
             (out, serr, err) \<Rightarrow>
               (case err of
                  None \<Rightarrow> None
                | Some e \<Rightarrow>
                    if strings_Contains serr ''ovn-sbctl: no key \"name\" in SB_Global record''
                    then None else Some e)))
   \<and> (\<forall>j<n. observedZone cfg (env j) = Some (cfg_DefaultZone cfg)
          \<and> (\<forall>i<j. observedZone cfg (env i) \<noteq> Some (cfg_DefaultZone cfg)) \<longrightarrow>
        waitForZoneMatch cfg sched env = Inr (cfg_DefaultZone cfg)
        \<and> fst (snd (zonePoll cfg sched env)) = Suc j)
   \<and> ((\<forall>i<n. observedZone cfg (env i) \<noteq> Some (cfg_DefaultZone cfg)) \<longrightarrow>
        fst (snd (zonePoll cfg sched env)) = n
        \<and> (\<forall>z. observedZone cfg (env (n - 1)) = Some z \<longrightarrow>
              waitForZoneMatch cfg sched env =
                Inl (TimedOutWaitingForZone (cfg_DefaultZone cfg) DeadlineExceeded
                       (Some (ZoneMismatch (cfg_name cfg) (cfg_DefaultZone cfg) z))))
        \<and> (\<forall>e. zoneReadError cfg (env (n - 1)) = Some e \<longrightarrow>
              waitForZoneMatch cfg sched env =
                Inl (TimedOutWaitingForZone (cfg_DefaultZone cfg) DeadlineExceeded
                       (Some (FailedToGetZoneName e)))))"
proof (intro conjI allI impI)
  from assms(2) pollAttempts_bounds[of "500 * Millisecond" "300 * Second" sched]
  show "1 \<le> n" by simp
  from assms(2) show "n \<le> 601" by (simp add: pollAttempts_Start)
next
  fix c
  show "observedZone cfg c =
          (case RunOVNSbctl c [''get'', ''SB_Global'', ''.'', ''options:name''] of
             (out, serr, err) \<Rightarrow>
               (case err of
                  None \<Rightarrow> Some out
                | Some e \<Rightarrow>
                    if strings_Contains serr ''ovn-sbctl: no key \"name\" in SB_Global record''
                    then Some (cfg_OvnDefaultZone cfg) else None))"
    by (rule observedZone_reads)
  show "zoneReadError cfg c =
          (case RunOVNSbctl c [''get'', ''SB_Global'', ''.'', ''options:name''] of
             (out, serr, err) \<Rightarrow>
               (case err of
                  None \<Rightarrow> None
                | Some e \<Rightarrow>
                    if strings_Contains serr ''ovn-sbctl: no key \"name\" in SB_Global record''
                    then None else Some e))"
    by (rule zoneReadError_reads)
next
  fix j
  assume j: "j < n"
  assume h: "observedZone cfg (env j) = Some (cfg_DefaultZone cfg)
          \<and> (\<forall>i<j. observedZone cfg (env i) \<noteq> Some (cfg_DefaultZone cfg))"
  from j assms(2) have "j < pollAttempts (500 * Millisecond) (300 * Second) sched" by simp
  from zonePoll_first_match[OF this] h
  obtain s0 where zp: "zonePoll cfg sched env = (True, Suc j, snd (zoneCondition cfg env j s0))"
    by blast
  from zp show "fst (snd (zonePoll cfg sched env)) = Suc j" by simp
  from zp assms(1) zoneCondition_match[of cfg env j s0] h
  show "waitForZoneMatch cfg sched env = Inr (cfg_DefaultZone cfg)"
    by (simp add: waitForZoneMatch_def)
next
  assume h: "\<forall>i<n. observedZone cfg (env i) \<noteq> Some (cfg_DefaultZone cfg)"
  from zonePoll_no_match[OF assms(2) h]
  obtain s0 where zp: "zonePoll cfg sched env = (False, n, snd (zoneCondition cfg env (n - 1) s0))"
    by blast
  from zp show "fst (snd (zonePoll cfg sched env)) = n" by simp
  from assms(2) pollAttempts_bounds[of "500 * Millisecond" "300 * Second" sched]
  have last: "n - 1 < n" by simp
  {
    fix z
    assume o: "observedZone cfg (env (n - 1)) = Some z"
    with h last have "z \<noteq> cfg_DefaultZone cfg" by blast
    from zoneCondition_mismatch[where cfg=cfg and env=env and k="n - 1" and vars=s0 and z=z,
        OF o this] zp assms(1)
    show "waitForZoneMatch cfg sched env =
            Inl (TimedOutWaitingForZone (cfg_DefaultZone cfg) DeadlineExceeded
                   (Some (ZoneMismatch (cfg_name cfg) (cfg_DefaultZone cfg) z)))"
      by (simp add: waitForZoneMatch_def)
  next
    fix e
    assume "zoneReadError cfg (env (n - 1)) = Some e"
    from zoneCondition_read_failure[where cfg=cfg and env=env and k="n - 1" and vars=s0, OF this]
      zp assms(1)
    show "waitForZoneMatch cfg sched env =
            Inl (TimedOutWaitingForZone (cfg_DefaultZone cfg) DeadlineExceeded
                   (Some (FailedToGetZoneName e)))"
      by (simp add: waitForZoneMatch_def)
  }
qed

text \<open>The example of the claim: the node wants \<open>zoneA\<close>; the database reports the empty
  zone, then \<open>zoneB\<close> for the rest of the 300 seconds. The failure names \<open>zoneB\<close>. And
  a node that wants \<open>zone1\<close> on a database that answers \<open>zone1\<close> goes on after one
  invocation.\<close>

theorem zone_match_wait_last_iteration_witness:
  "RunOVNSbctl (zoneBCluster 0) [''get'', ''SB_Global'', ''.'', ''options:name''] = ([], [], None)
   \<and> RunOVNSbctl (zoneBCluster 1) [''get'', ''SB_Global'', ''.'', ''options:name''] =
       (''zoneB'', [], None)
   \<and> RunOVNSbctl (zoneBCluster 600) [''get'', ''SB_Global'', ''.'', ''options:name''] =
       (''zoneB'', [], None)
   \<and> fst (snd (zonePoll zoneAConfig 601 zoneBCluster)) = 601
   \<and> waitForZoneMatch zoneAConfig 601 zoneBCluster =
       Inl (TimedOutWaitingForZone ''zoneA'' DeadlineExceeded
              (Some (ZoneMismatch ''node1'' ''zoneA'' ''zoneB'')))
   \<and> waitForZoneMatch node1Config 601 readyCluster = Inr ''zone1''
   \<and> fst (snd (zonePoll node1Config 601 readyCluster)) = 1"
proof -
  have reads: "RunOVNSbctl (zoneBCluster k) [''get'', ''SB_Global'', ''.'', ''options:name''] =
      ((if k = 0 then [] else ''zoneB''), [], None)" for k
    by (simp add: zoneBCluster_def clusterWith_def sbAnswers_def)
  have obs: "observedZone zoneAConfig (zoneBCluster k) = Some (if k = 0 then [] else ''zoneB'')"
    for k
    by (simp add: observedZone_reads reads)
  have a: "\<not> cfg_ModeDPUHost zoneAConfig" "\<not> cfg_ModeDPUHost node1Config"
    by (simp_all add: zoneAConfig_def node1Config_def)
  have d: "cfg_DefaultZone zoneAConfig = ''zoneA''" "cfg_name zoneAConfig = ''node1''"
    "cfg_DefaultZone node1Config = ''zone1''"
    by (simp_all add: zoneAConfig_def node1Config_def)
  have n: "601 = pollAttempts (500 * Millisecond) (300 * Second) 601"
    by (simp add: pollAttempts_Start)
  have h: "\<forall>i<601. observedZone zoneAConfig (zoneBCluster i) \<noteq>
                      Some (cfg_DefaultZone zoneAConfig)"
    by (simp add: obs d)
  have last: "observedZone zoneAConfig (zoneBCluster (601 - 1)) = Some ''zoneB''"
    by (simp add: obs)
  note miss = zone_match_wait_last_iteration[OF a(1) n, of zoneBCluster,
      THEN conjunct2, THEN conjunct2, THEN conjunct2, THEN conjunct2, THEN conjunct2,
      THEN mp, OF h]
  have ready: "observedZone node1Config (readyCluster 0) = Some (cfg_DefaultZone node1Config)
          \<and> (\<forall>i<0. observedZone node1Config (readyCluster i) \<noteq>
                      Some (cfg_DefaultZone node1Config))"
    by (simp add: observedZone_reads readyCluster_def clusterWith_def sbAnswers_def d)
  have zero: "(0::nat) < 601" by simp
  note hit = zone_match_wait_last_iteration[OF a(2) n, of readyCluster,
      THEN conjunct2, THEN conjunct2, THEN conjunct2, THEN conjunct2, THEN conjunct1,
      THEN spec, THEN mp, THEN mp, OF zero ready]
  from miss[THEN conjunct1] miss[THEN conjunct2, THEN conjunct1, THEN spec, THEN mp, OF last] hit
  show ?thesis by (simp add: reads d)
qed

text \<open>The claim fails when the last read fails. The database answers \<open>zoneB\<close> for the
  first 150 seconds (300 passes) and cannot be reached from then on, the node wants
  \<open>zoneA\<close>. The last zone observed is \<open>zoneB\<close>, and the error of the wait carries the
  error of the last read and no zone, whether the poll makes 600 invocations or 601.\<close>

lemma zoneBThenDown_wait:
  assumes "300 < sched"
  shows "waitForZoneMatch zoneAConfig sched zoneBThenDownCluster =
     Inl (TimedOutWaitingForZone ''zoneA'' DeadlineExceeded
            (Some (FailedToGetZoneName ''exit status 1'')))"
proof -
  let ?n = "pollAttempts (500 * Millisecond) (300 * Second) sched"
  have obs: "observedZone zoneAConfig (zoneBThenDownCluster k) =
               (if k < 300 then Some ''zoneB'' else None)" for k
    by (simp add: observedZone_reads zoneBThenDownCluster_def clusterWith_def sbAnswers_def
        sbUnreachable_def)
  have a: "\<not> cfg_ModeDPUHost zoneAConfig" by (simp add: zoneAConfig_def node1Config_def)
  have d: "cfg_DefaultZone zoneAConfig = ''zoneA''"
    by (simp add: zoneAConfig_def node1Config_def)
  have h: "\<forall>i<?n. observedZone zoneAConfig (zoneBThenDownCluster i) \<noteq>
                     Some (cfg_DefaultZone zoneAConfig)"
    by (simp add: obs d)
  from assms have "300 \<le> ?n - 1" by (simp add: pollAttempts_Start)
  then have e: "zoneReadError zoneAConfig (zoneBThenDownCluster (?n - 1)) = Some ''exit status 1''"
    by (simp add: zoneReadError_reads zoneBThenDownCluster_def clusterWith_def sbAnswers_def
        sbUnreachable_def)
  from zonePoll_no_match[OF refl h]
  obtain s0 where zp: "zonePoll zoneAConfig sched zoneBThenDownCluster =
      (False, ?n, snd (zoneCondition zoneAConfig zoneBThenDownCluster (?n - 1) s0))" by blast
  from zoneCondition_read_failure[where cfg=zoneAConfig and env=zoneBThenDownCluster
      and k="?n - 1" and vars=s0, OF e] zp a d
  show ?thesis by (simp add: waitForZoneMatch_def)
qed

theorem zone_match_wait_failed_last_read_counterexample:
  "RunOVNSbctl (zoneBThenDownCluster 299) [''get'', ''SB_Global'', ''.'', ''options:name''] =
     (''zoneB'', [], None)
   \<and> cfg_DefaultZone zoneAConfig = ''zoneA''
   \<and> waitForZoneMatch zoneAConfig 601 zoneBThenDownCluster =
       Inl (TimedOutWaitingForZone ''zoneA'' DeadlineExceeded
              (Some (FailedToGetZoneName ''exit status 1'')))
   \<and> waitForZoneMatch zoneAConfig 600 zoneBThenDownCluster =
       Inl (TimedOutWaitingForZone ''zoneA'' DeadlineExceeded
              (Some (FailedToGetZoneName ''exit status 1'')))"
proof -
  have "RunOVNSbctl (zoneBThenDownCluster 299) [''get'', ''SB_Global'', ''.'', ''options:name''] =
     (''zoneB'', [], None)"
    by (simp add: zoneBThenDownCluster_def clusterWith_def sbAnswers_def)
  moreover have "cfg_DefaultZone zoneAConfig = ''zoneA''"
    by (simp add: zoneAConfig_def node1Config_def)
  moreover have "(300::nat) < 601" "(300::nat) < 600" by simp_all
  ultimately show ?thesis using zoneBThenDown_wait by blast
qed
subsection \<open>The interconnect upgrade barrier: one polling pass\<close>

text \<open>What each block does to the variables: it is skipped when its predicate is
  recorded as done; otherwise it calls its lister and either records the predicate or
  makes the closure return false.\<close>

lemma nodesBlock_cases:
  "(syncNodes vars \<and> nodesBlock cfg c vars = (True, vars))
   \<or> (\<not> syncNodes vars \<and> (\<exists>e. nodesBlock cfg c vars =
         (False, vars\<lparr>events := events vars @ [GetNodesCalled], barrier_err1 := e\<rparr>)))
   \<or> (\<not> syncNodes vars \<and> nodesBlock cfg c vars =
         (True, vars\<lparr>events := events vars @ [GetNodesCalled, NodesSynced], syncNodes := True\<rparr>))"
  by (auto simp: nodesBlock_def logEvent_def Let_def split: sum.splits option.splits)

lemma servicesBlock_cases:
  "(syncServices vars \<and> servicesBlock cfg c vars = (True, vars))
   \<or> (\<not> syncServices vars \<and> (\<exists>e. servicesBlock cfg c vars =
         (False, vars\<lparr>events := events vars @ [GetServicesCalled], barrier_err1 := e\<rparr>)))
   \<or> (\<not> syncServices vars \<and> servicesBlock cfg c vars =
         (True, vars\<lparr>events := events vars @ [GetServicesCalled, ServicesSynced],
                     syncServices := True\<rparr>))"
proof (cases "syncServices vars")
  case True
  then show ?thesis by (simp add: servicesBlock_def)
next
  case False
  have "vars\<lparr>events := events vars @ [GetServicesCalled]\<rparr> =
        vars\<lparr>events := events vars @ [GetServicesCalled], barrier_err1 := barrier_err1 vars\<rparr>"
    by simp
  with False show ?thesis
    by (auto simp: servicesBlock_def logEvent_def Let_def split: sum.splits
        intro: exI[of _ "barrier_err1 vars"])
qed

lemma podsBlock_cases:
  "(syncPods vars \<and> podsBlock cfg c vars = (True, vars))
   \<or> (\<not> syncPods vars \<and> (\<exists>e. podsBlock cfg c vars =
         (False, vars\<lparr>events := events vars @ [GetAllPodsCalled], barrier_err1 := e\<rparr>)))
   \<or> (\<not> syncPods vars \<and> podsBlock cfg c vars =
         (True, vars\<lparr>events := events vars @ [GetAllPodsCalled, PodsSynced], syncPods := True\<rparr>))"
proof (cases "syncPods vars")
  case True
  then show ?thesis by (simp add: podsBlock_def)
next
  case False
  have "vars\<lparr>events := events vars @ [GetAllPodsCalled]\<rparr> =
        vars\<lparr>events := events vars @ [GetAllPodsCalled], barrier_err1 := barrier_err1 vars\<rparr>"
    by simp
  with False show ?thesis
    by (auto simp: podsBlock_def logEvent_def Let_def split: sum.splits
        intro: exI[of _ "barrier_err1 vars"])
qed

text \<open>Appending events to the bookkeeping of one predicate.\<close>

lemma cachedOnce_other:
  "cachedOnce call done flag evs \<Longrightarrow> call \<notin> set new \<Longrightarrow> done \<notin> set new \<Longrightarrow>
     cachedOnce call done flag (evs @ new)"
  by (auto simp: cachedOnce_def evaluatedAfterDone_def dropWhile_append)

lemma cachedOnce_call:
  "cachedOnce call done False evs \<Longrightarrow> call \<noteq> done \<Longrightarrow>
     cachedOnce call done False (evs @ [call])"
  by (auto simp: cachedOnce_def)

lemma cachedOnce_done:
  "cachedOnce call done False evs \<Longrightarrow> call \<noteq> done \<Longrightarrow>
     cachedOnce call done True (evs @ [call, done])"
  by (auto simp: cachedOnce_def evaluatedAfterDone_def dropWhile_append)

lemma nodesBlock_invariant:
  assumes "cacheInvariant vars"
  shows "cacheInvariant (snd (nodesBlock cfg c vars))"
  using nodesBlock_cases[of vars cfg c]
proof (elim disjE conjE exE)
  assume "nodesBlock cfg c vars = (True, vars)"
  with assms show ?thesis by simp
next
  fix e
  assume f: "\<not> syncNodes vars"
    and r: "nodesBlock cfg c vars =
         (False, vars\<lparr>events := events vars @ [GetNodesCalled], barrier_err1 := e\<rparr>)"
  from assms f show ?thesis unfolding r
    by (simp add: cacheInvariant_def cachedOnce_call cachedOnce_other)
next
  assume f: "\<not> syncNodes vars"
    and r: "nodesBlock cfg c vars =
         (True, vars\<lparr>events := events vars @ [GetNodesCalled, NodesSynced], syncNodes := True\<rparr>)"
  from assms f show ?thesis unfolding r
    by (simp add: cacheInvariant_def cachedOnce_done cachedOnce_other)
qed

lemma servicesBlock_invariant:
  assumes "cacheInvariant vars"
  shows "cacheInvariant (snd (servicesBlock cfg c vars))"
  using servicesBlock_cases[of vars cfg c]
proof (elim disjE conjE exE)
  assume "servicesBlock cfg c vars = (True, vars)"
  with assms show ?thesis by simp
next
  fix e
  assume f: "\<not> syncServices vars"
    and r: "servicesBlock cfg c vars =
         (False, vars\<lparr>events := events vars @ [GetServicesCalled], barrier_err1 := e\<rparr>)"
  from assms f show ?thesis unfolding r
    by (simp add: cacheInvariant_def cachedOnce_call cachedOnce_other)
next
  assume f: "\<not> syncServices vars"
    and r: "servicesBlock cfg c vars =
         (True, vars\<lparr>events := events vars @ [GetServicesCalled, ServicesSynced],
                     syncServices := True\<rparr>)"
  from assms f show ?thesis unfolding r
    by (simp add: cacheInvariant_def cachedOnce_done cachedOnce_other)
qed

lemma podsBlock_invariant:
  assumes "cacheInvariant vars"
  shows "cacheInvariant (snd (podsBlock cfg c vars))"
  using podsBlock_cases[of vars cfg c]
proof (elim disjE conjE exE)
  assume "podsBlock cfg c vars = (True, vars)"
  with assms show ?thesis by simp
next
  fix e
  assume f: "\<not> syncPods vars"
    and r: "podsBlock cfg c vars =
         (False, vars\<lparr>events := events vars @ [GetAllPodsCalled], barrier_err1 := e\<rparr>)"
  from assms f show ?thesis unfolding r
    by (simp add: cacheInvariant_def cachedOnce_call cachedOnce_other)
next
  assume f: "\<not> syncPods vars"
    and r: "podsBlock cfg c vars =
         (True, vars\<lparr>events := events vars @ [GetAllPodsCalled, PodsSynced], syncPods := True\<rparr>)"
  from assms f show ?thesis unfolding r
    by (simp add: cacheInvariant_def cachedOnce_done cachedOnce_other)
qed

lemma barrierCondition_invariant:
  assumes "cacheInvariant vars"
  shows "cacheInvariant (snd (barrierCondition cfg env k vars))"
proof -
  obtain g1 v1 where b1: "nodesBlock cfg (env k) vars = (g1, v1)"
    by (cases "nodesBlock cfg (env k) vars")
  obtain g2 v2 where b2: "servicesBlock cfg (env k) v1 = (g2, v2)"
    by (cases "servicesBlock cfg (env k) v1")
  obtain g3 v3 where b3: "podsBlock cfg (env k) v2 = (g3, v3)"
    by (cases "podsBlock cfg (env k) v2")
  from nodesBlock_invariant[OF assms, of cfg "env k"] b1 have i1: "cacheInvariant v1" by simp
  from servicesBlock_invariant[OF i1, of cfg "env k"] b2 have i2: "cacheInvariant v2" by simp
  from podsBlock_invariant[OF i2, of cfg "env k"] b3 have i3: "cacheInvariant v3" by simp
  from b1 b2 b3 i1 i2 i3 show ?thesis by (simp add: barrierCondition_def)
qed

text \<open>What one block does to the three flags and to the events.\<close>

lemma nodesBlock_flags:
  assumes "nodesBlock cfg c vars = (go, vars')"
  shows "syncNodes vars' = go \<and> syncServices vars' = syncServices vars
       \<and> syncPods vars' = syncPods vars
       \<and> (\<exists>new. events vars' = events vars @ new \<and> list_all isPollEvent new
            \<and> GetServicesCalled \<notin> set new \<and> GetAllPodsCalled \<notin> set new
            \<and> (syncNodes vars \<longrightarrow> new = [] \<and> go))"
  using nodesBlock_cases[of vars cfg c] assms by (auto simp: isPollEvent_def)

lemma servicesBlock_flags:
  assumes "servicesBlock cfg c vars = (go, vars')"
  shows "syncServices vars' = go \<and> syncNodes vars' = syncNodes vars
       \<and> syncPods vars' = syncPods vars
       \<and> (\<exists>new. events vars' = events vars @ new \<and> list_all isPollEvent new
            \<and> GetNodesCalled \<notin> set new \<and> GetAllPodsCalled \<notin> set new
            \<and> (syncServices vars \<longrightarrow> new = [] \<and> go))"
  using servicesBlock_cases[of vars cfg c] assms by (auto simp: isPollEvent_def)

lemma podsBlock_flags:
  assumes "podsBlock cfg c vars = (go, vars')"
  shows "syncPods vars' = go \<and> syncNodes vars' = syncNodes vars
       \<and> syncServices vars' = syncServices vars
       \<and> (\<exists>new. events vars' = events vars @ new \<and> list_all isPollEvent new
            \<and> GetNodesCalled \<notin> set new \<and> GetServicesCalled \<notin> set new
            \<and> (syncPods vars \<longrightarrow> new = [] \<and> go))"
  using podsBlock_cases[of vars cfg c] assms by (auto simp: isPollEvent_def)

text \<open>One pass: it reports true exactly when it leaves all three predicates recorded;
  a recorded predicate stays recorded and its lister is not called; the pass only adds
  events of the polling kind.\<close>

lemma barrierCondition_pass:
  assumes "barrierCondition cfg env k vars = (ok, vars')"
  shows "ok = allSynced vars'
       \<and> (syncNodes vars \<longrightarrow> syncNodes vars' \<and> GetNodesCalled \<notin> set (newEvents vars vars'))
       \<and> (syncServices vars \<longrightarrow>
            syncServices vars' \<and> GetServicesCalled \<notin> set (newEvents vars vars'))
       \<and> (syncPods vars \<longrightarrow> syncPods vars' \<and> GetAllPodsCalled \<notin> set (newEvents vars vars'))
       \<and> (\<exists>new. events vars' = events vars @ new \<and> list_all isPollEvent new)"
proof -
  obtain g1 v1 where b1: "nodesBlock cfg (env k) vars = (g1, v1)"
    by (cases "nodesBlock cfg (env k) vars")
  obtain g2 v2 where b2: "servicesBlock cfg (env k) v1 = (g2, v2)"
    by (cases "servicesBlock cfg (env k) v1")
  obtain g3 v3 where b3: "podsBlock cfg (env k) v2 = (g3, v3)"
    by (cases "podsBlock cfg (env k) v2")
  note f1 = nodesBlock_flags[OF b1] and f2 = servicesBlock_flags[OF b2]
    and f3 = podsBlock_flags[OF b3]
  from f1 obtain n1 where n1: "events v1 = events vars @ n1" "list_all isPollEvent n1"
    "GetServicesCalled \<notin> set n1" "GetAllPodsCalled \<notin> set n1"
    "syncNodes vars \<longrightarrow> n1 = [] \<and> g1"
    by blast
  from f2 obtain n2 where n2: "events v2 = events v1 @ n2" "list_all isPollEvent n2"
    "GetNodesCalled \<notin> set n2" "GetAllPodsCalled \<notin> set n2"
    "syncServices v1 \<longrightarrow> n2 = [] \<and> g2"
    by blast
  from f3 obtain n3 where n3: "events v3 = events v2 @ n3" "list_all isPollEvent n3"
    "GetNodesCalled \<notin> set n3" "GetServicesCalled \<notin> set n3"
    "syncPods v2 \<longrightarrow> n3 = [] \<and> g3"
    by blast
  show ?thesis
  proof (cases g1)
    case False
    with assms b1 have r: "ok = False" "vars' = v1" by (simp_all add: barrierCondition_def)
    from f1 False n1 show ?thesis unfolding r
      by (auto simp: allSynced_def newEvents_def)
  next
    case g1: True
    show ?thesis
    proof (cases g2)
      case False
      with assms b1 b2 g1 have r: "ok = False" "vars' = v2"
        by (simp_all add: barrierCondition_def)
      from f1 f2 False n1 n2 show ?thesis unfolding r
        by (auto simp: allSynced_def newEvents_def)
    next
      case g2: True
      from assms b1 b2 b3 g1 g2 have r: "ok = g3" "vars' = v3"
        by (auto simp: barrierCondition_def split: if_splits)
      from f1 f2 f3 g1 g2 n1 n2 n3 show ?thesis unfolding r
        by (auto simp: allSynced_def newEvents_def)
    qed
  qed
qed

lemma barrierCondition_verdict:
  "fst (barrierCondition cfg env k vars) = allSynced (snd (barrierCondition cfg env k vars))"
  using barrierCondition_pass[of cfg env k vars] by (cases "barrierCondition cfg env k vars") simp

lemma barrierCondition_pollEvents:
  assumes "list_all isPollEvent (events vars)"
  shows "list_all isPollEvent (events (snd (barrierCondition cfg env k vars)))"
proof -
  obtain ok vars' where c: "barrierCondition cfg env k vars = (ok, vars')"
    by (cases "barrierCondition cfg env k vars")
  from barrierCondition_pass[OF c] assms c show ?thesis by auto
qed

lemma initial_invariant: "cacheInvariant initialBarrierVars"
  by (simp add: cacheInvariant_def cachedOnce_def initialBarrierVars_def)

lemma barrierPoll_invariant: "cacheInvariant (snd (snd (barrierPoll cfg sched env)))"
  unfolding barrierPoll_def PollUntilContextTimeout_def
  by (rule pollLoop_invariant[where P = cacheInvariant, OF initial_invariant
        barrierCondition_invariant])

lemma barrierPoll_pollEvents: "list_all isPollEvent (events (snd (snd (barrierPoll cfg sched env))))"
  unfolding barrierPoll_def PollUntilContextTimeout_def
  by (rule pollLoop_invariant[where P = "\<lambda>vars. list_all isPollEvent (events vars)"])
    (simp_all add: initialBarrierVars_def barrierCondition_pollEvents)

lemma barrierPoll_verdict:
  "fst (barrierPoll cfg sched env) = allSynced (snd (snd (barrierPoll cfg sched env)))"
  unfolding barrierPoll_def PollUntilContextTimeout_def
  by (rule pollLoop_verdict[where Q = allSynced, OF barrierCondition_verdict])
    (simp add: allSynced_def initialBarrierVars_def)

lemma barrierPoll_count:
  "fst (snd (barrierPoll cfg sched env)) \<le> pollAttempts barrierInterval barrierTimeout sched
   \<and> (\<not> fst (barrierPoll cfg sched env) \<longrightarrow>
        fst (snd (barrierPoll cfg sched env)) = pollAttempts barrierInterval barrierTimeout sched)"
  using pollLoop_count[of "pollAttempts barrierInterval barrierTimeout sched" 0
      "barrierCondition cfg env" initialBarrierVars]
  by (simp add: barrierPoll_def PollUntilContextTimeout_def)

subsection \<open>The interconnect upgrade barrier: the whole run\<close>

lemma cachedOnce_never_after:
  assumes "cachedOnce call done flag evs"
  shows "\<not> evaluatedAfterDone call done evs"
proof (cases flag)
  case True
  with assms show ?thesis by (simp add: cachedOnce_def)
next
  case False
  with assms have "done \<notin> set evs" by (simp add: cachedOnce_def)
  then have d: "dropWhile (\<lambda>e. e \<noteq> done) evs = []" by auto
  show ?thesis unfolding evaluatedAfterDone_def d by simp
qed

lemma cachedOnce_flag: "cachedOnce call done flag evs \<Longrightarrow> flag = (done \<in> set evs)"
  by (cases flag) (simp_all add: cachedOnce_def)

text \<open>
  Claim C6. Within one run of the barrier, once one of the three readiness predicates
  has evaluated true it is not evaluated again. The block of a predicate that is
  recorded as done changes nothing and reads nothing of the cluster; over one pass a
  flag that is set stays set and the lister of its predicate is not called; and in the
  events of the whole run no lister call of a predicate comes after the point where
  that predicate was recorded as done, a flag being set at the end exactly when that
  point was reached.
\<close>

theorem barrier_predicates_cached:
  "(\<forall>c vars. syncNodes vars \<longrightarrow> nodesBlock cfg c vars = (True, vars))
   \<and> (\<forall>c vars. syncServices vars \<longrightarrow> servicesBlock cfg c vars = (True, vars))
   \<and> (\<forall>c vars. syncPods vars \<longrightarrow> podsBlock cfg c vars = (True, vars))
   \<and> (\<forall>k vars.
        (syncNodes vars \<longrightarrow>
           syncNodes (snd (barrierCondition cfg env k vars))
           \<and> GetNodesCalled \<notin> set (newEvents vars (snd (barrierCondition cfg env k vars))))
        \<and> (syncServices vars \<longrightarrow>
           syncServices (snd (barrierCondition cfg env k vars))
           \<and> GetServicesCalled \<notin> set (newEvents vars (snd (barrierCondition cfg env k vars))))
        \<and> (syncPods vars \<longrightarrow>
           syncPods (snd (barrierCondition cfg env k vars))
           \<and> GetAllPodsCalled \<notin> set (newEvents vars (snd (barrierCondition cfg env k vars)))))
   \<and> \<not> evaluatedAfterDone GetNodesCalled NodesSynced (events (snd (snd (barrierPoll cfg sched env))))
   \<and> \<not> evaluatedAfterDone GetServicesCalled ServicesSynced
         (events (snd (snd (barrierPoll cfg sched env))))
   \<and> \<not> evaluatedAfterDone GetAllPodsCalled PodsSynced (events (snd (snd (barrierPoll cfg sched env))))
   \<and> syncNodes (snd (snd (barrierPoll cfg sched env))) =
       (NodesSynced \<in> set (events (snd (snd (barrierPoll cfg sched env)))))
   \<and> syncServices (snd (snd (barrierPoll cfg sched env))) =
       (ServicesSynced \<in> set (events (snd (snd (barrierPoll cfg sched env)))))
   \<and> syncPods (snd (snd (barrierPoll cfg sched env))) =
       (PodsSynced \<in> set (events (snd (snd (barrierPoll cfg sched env)))))"
proof -
  have blocks: "(\<forall>c vars. syncNodes vars \<longrightarrow> nodesBlock cfg c vars = (True, vars))
   \<and> (\<forall>c vars. syncServices vars \<longrightarrow> servicesBlock cfg c vars = (True, vars))
   \<and> (\<forall>c vars. syncPods vars \<longrightarrow> podsBlock cfg c vars = (True, vars))"
    by (simp add: nodesBlock_def servicesBlock_def podsBlock_def)
  have pass: "(syncNodes vars \<longrightarrow>
           syncNodes (snd (barrierCondition cfg env k vars))
           \<and> GetNodesCalled \<notin> set (newEvents vars (snd (barrierCondition cfg env k vars))))
        \<and> (syncServices vars \<longrightarrow>
           syncServices (snd (barrierCondition cfg env k vars))
           \<and> GetServicesCalled \<notin> set (newEvents vars (snd (barrierCondition cfg env k vars))))
        \<and> (syncPods vars \<longrightarrow>
           syncPods (snd (barrierCondition cfg env k vars))
           \<and> GetAllPodsCalled \<notin> set (newEvents vars (snd (barrierCondition cfg env k vars))))"
    for k vars
  proof -
    obtain ok vars' where c: "barrierCondition cfg env k vars = (ok, vars')"
      by (cases "barrierCondition cfg env k vars")
    from barrierCondition_pass[OF c] c show ?thesis by simp
  qed
  note inv = barrierPoll_invariant[of cfg sched env, unfolded cacheInvariant_def]
  from inv have run: "\<not> evaluatedAfterDone GetNodesCalled NodesSynced
        (events (snd (snd (barrierPoll cfg sched env))))
   \<and> \<not> evaluatedAfterDone GetServicesCalled ServicesSynced
         (events (snd (snd (barrierPoll cfg sched env))))
   \<and> \<not> evaluatedAfterDone GetAllPodsCalled PodsSynced (events (snd (snd (barrierPoll cfg sched env))))"
    using cachedOnce_never_after by blast
  from inv have flags: "syncNodes (snd (snd (barrierPoll cfg sched env))) =
       (NodesSynced \<in> set (events (snd (snd (barrierPoll cfg sched env)))))
   \<and> syncServices (snd (snd (barrierPoll cfg sched env))) =
       (ServicesSynced \<in> set (events (snd (snd (barrierPoll cfg sched env)))))
   \<and> syncPods (snd (snd (barrierPoll cfg sched env))) =
       (PodsSynced \<in> set (events (snd (snd (barrierPoll cfg sched env)))))"
    using cachedOnce_flag by blast
  from blocks pass run flags show ?thesis by blast
qed

text \<open>A run in which the routes and the port bindings are there from the start and the
  load balancer of the one service appears at the third pass.\<close>

lemma lbLate_run:
  "barrierPoll node1Config 601 lbLateCluster =
     (True, 3,
      \<lparr>syncNodes = True, syncServices = True, syncPods = True, barrier_err1 = None,
       events = [GetNodesCalled, NodesSynced, GetServicesCalled, GetServicesCalled,
                 GetServicesCalled, ServicesSynced, GetAllPodsCalled, PodsSynced]\<rparr>)"
  by (simp add: barrierPoll_def PollUntilContextTimeout_def barrierInterval_def
      barrierTimeout_def pollAttempts_Start pollLoop_unfold initialBarrierVars_def
      barrierCondition_def nodesBlock_def servicesBlock_def podsBlock_def logEvent_def
      lbLateCluster_def clusterWith_def node1Config_def node2_def dnsService_def gwPod_def
      sbAnswers_def checkOVNSBNodeLRSR_def fetchLBNames_def lbExists_def
      stitchedServiceName_def portExists_def doubleQuote_def Let_def)

text \<open>In that run the node lister is called once, in the first pass, although three
  passes are made.\<close>

theorem barrier_predicates_cached_witness:
  "fst (snd (barrierPoll node1Config 601 lbLateCluster)) = 3
   \<and> count_list (events (snd (snd (barrierPoll node1Config 601 lbLateCluster)))) GetNodesCalled = 1
   \<and> count_list (events (snd (snd (barrierPoll node1Config 601 lbLateCluster)))) GetServicesCalled = 3
   \<and> \<not> evaluatedAfterDone GetNodesCalled NodesSynced
         (events (snd (snd (barrierPoll node1Config 601 lbLateCluster))))
   \<and> nodesBlock node1Config (lbLateCluster 1)
       (snd (barrierCondition node1Config lbLateCluster 0 initialBarrierVars)) =
       (True, snd (barrierCondition node1Config lbLateCluster 0 initialBarrierVars))"
proof -
  note inst = barrier_predicates_cached[where cfg=node1Config and sched=601 and env=lbLateCluster]
  have s: "syncNodes (snd (barrierCondition node1Config lbLateCluster 0 initialBarrierVars))"
    by (simp add: initialBarrierVars_def
      barrierCondition_def nodesBlock_def servicesBlock_def podsBlock_def logEvent_def
      lbLateCluster_def clusterWith_def node1Config_def node2_def dnsService_def gwPod_def
      sbAnswers_def checkOVNSBNodeLRSR_def fetchLBNames_def lbExists_def
      stitchedServiceName_def portExists_def doubleQuote_def Let_def)
  from inst[THEN conjunct1, rule_format, OF s, of "lbLateCluster 1"]
    inst[THEN conjunct2, THEN conjunct2, THEN conjunct2, THEN conjunct2, THEN conjunct1]
  show ?thesis by (simp add: lbLate_run)
qed

subsection \<open>The marker and the retarget\<close>

text \<open>A credential retarget in a list of events that starts with polling events, then
  the marker and its persistence: it comes after both.\<close>

lemma retarget_after_marker:
  assumes pe: "list_all isPollEvent pe"
    and i: "i < length (pe @ SetNodeZoneMigratedCalled z # AnnotatorRunCalled # evs)"
    and at: "(pe @ SetNodeZoneMigratedCalled z # AnnotatorRunCalled # evs) ! i =
               SetDBAuthCalled auth"
  shows "\<exists>j k. j < k \<and> k < i
           \<and> (pe @ SetNodeZoneMigratedCalled z # AnnotatorRunCalled # evs) ! j =
               SetNodeZoneMigratedCalled z
           \<and> (pe @ SetNodeZoneMigratedCalled z # AnnotatorRunCalled # evs) ! k =
               AnnotatorRunCalled"
proof -
  let ?tr = "pe @ SetNodeZoneMigratedCalled z # AnnotatorRunCalled # evs"
  have ge: "length pe \<le> i"
  proof (rule ccontr)
    assume "\<not> length pe \<le> i"
    then have l: "i < length pe" by simp
    then have "?tr ! i = pe ! i" by (simp add: nth_append)
    moreover from pe l have "isPollEvent (pe ! i)" by (simp add: list_all_length)
    ultimately show False using at by (auto simp: isPollEvent_def)
  qed
  have "i \<noteq> length pe" using at by (auto simp: nth_append)
  moreover have "i \<noteq> Suc (length pe)" using at by (auto simp: nth_append)
  ultimately have "Suc (length pe) < i" using ge by simp
  moreover have "?tr ! length pe = SetNodeZoneMigratedCalled z" by (simp add: nth_append)
  moreover have "?tr ! Suc (length pe) = AnnotatorRunCalled" by (simp add: nth_append)
  ultimately show ?thesis by (intro exI[of _ "length pe"] exI[of _ "Suc (length pe)"]) simp
qed

lemma no_retarget_among:
  assumes pe: "list_all isPollEvent pe"
    and rest: "\<forall>e\<in>set rest. \<forall>auth. e \<noteq> SetDBAuthCalled auth"
    and i: "i < length (pe @ rest)"
  shows "(pe @ rest) ! i \<noteq> SetDBAuthCalled auth"
proof (cases "i < length pe")
  case True
  with pe have "isPollEvent (pe ! i)" by (simp add: list_all_length)
  with True show ?thesis by (auto simp: nth_append isPollEvent_def)
next
  case False
  with i have "(pe @ rest) ! i \<in> set rest" by (simp add: nth_append)
  with rest show ?thesis by blast
qed

text \<open>
  Claim C2. In every execution of the barrier, at every position of the events where
  the credentials are retargeted (\<^verbatim>\<open>SetDBAuth\<close> for the northbound or the southbound
  database), the write of the migrated marker and, after it, its persistence call have
  been issued at earlier positions, and both returned without error.
\<close>

theorem marker_before_retarget:
  "\<forall>i auth. i < length (fst (upgradeHack cfg sched migrated z env a))
       \<and> fst (upgradeHack cfg sched migrated z env a) ! i = SetDBAuthCalled auth \<longrightarrow>
     (\<exists>j k. j < k \<and> k < i
        \<and> fst (upgradeHack cfg sched migrated z env a) ! j = SetNodeZoneMigratedCalled z
        \<and> fst (upgradeHack cfg sched migrated z env a) ! k = AnnotatorRunCalled)
     \<and> SetNodeZoneMigrated a z = None \<and> AnnotatorRun a = None"
proof (intro allI impI)
  fix i auth
  let ?tr = "fst (upgradeHack cfg sched migrated z env a)"
  assume h: "i < length ?tr \<and> ?tr ! i = SetDBAuthCalled auth"
  obtain ok n vars where p: "barrierPoll cfg sched env = (ok, n, vars)"
    by (cases "barrierPoll cfg sched env") auto
  from barrierPoll_pollEvents[of cfg sched env] p have pe: "list_all isPollEvent (events vars)"
    by simp
  show "(\<exists>j k. j < k \<and> k < i \<and> ?tr ! j = SetNodeZoneMigratedCalled z
            \<and> ?tr ! k = AnnotatorRunCalled)
        \<and> SetNodeZoneMigrated a z = None \<and> AnnotatorRun a = None"
  proof (cases "barrierEntered cfg migrated z")
    case False
    then have "?tr = []" by (auto simp: upgradeHack_def barrierEntered_def)
    with h show ?thesis by simp
  next
    case entered: True
    show ?thesis
    proof (cases ok)
      case False
      with entered p have t: "?tr = events vars @
          [ExitCalled (TimedOutWaitingForRemoteController DeadlineExceeded (barrier_err1 vars))]"
        by (simp add: upgradeHack_def barrierEntered_def)
      from h no_retarget_among[OF pe, of "[ExitCalled (TimedOutWaitingForRemoteController
          DeadlineExceeded (barrier_err1 vars))]" i auth]
      show ?thesis unfolding t by simp
    next
      case True
      obtain evs r where m: "migrateZone a z = (evs, r)" by (cases "migrateZone a z")
      from entered True p m have t: "?tr = events vars @ evs"
        by (simp add: upgradeHack_def barrierEntered_def)
      show ?thesis
      proof (cases "SetNodeZoneMigrated a z")
        case (Some err)
        with m have "evs = [SetNodeZoneMigratedCalled z,
            ExitCalled (FailedToSetNodeZoneAnnotation err)]"
          by (simp add: migrateZone_def)
        with h no_retarget_among[OF pe, of evs i auth] show ?thesis unfolding t by simp
      next
        case none1: None
        show ?thesis
        proof (cases "AnnotatorRun a")
          case (Some err)
          with m none1 have "evs = [SetNodeZoneMigratedCalled z, AnnotatorRunCalled,
              ExitCalled (FailedToSetNodeAnnotations err)]"
            by (simp add: migrateZone_def)
          with h no_retarget_among[OF pe, of evs i auth] show ?thesis unfolding t by simp
        next
          case none2: None
          obtain evs' r' where al: "authLoop a [OvnNorth, OvnSouth] = (evs', r')"
            by (cases "authLoop a [OvnNorth, OvnSouth]")
          with m none1 none2 have
            "evs = SetNodeZoneMigratedCalled z # AnnotatorRunCalled # evs'"
            by (simp add: migrateZone_def)
          with h retarget_after_marker[OF pe, of i z evs' auth] none1 none2
          show ?thesis unfolding t by simp
        qed
      qed
    qed
  qed
qed

text \<open>The cluster is ready at the first pass and nothing fails: the marker, its
  persistence, then the two retargets, in this order.\<close>

lemma ready_run:
  "upgradeHack node1Config 601 False ''zone1'' readyCluster annotatorWorks =
     ([GetNodesCalled, NodesSynced, GetServicesCalled, ServicesSynced, GetAllPodsCalled,
       PodsSynced, SetNodeZoneMigratedCalled ''zone1'', AnnotatorRunCalled,
       SetDBAuthCalled OvnNorth, SetDBAuthCalled OvnSouth], None)"
  by (simp add: upgradeHack_def migrateZone_def annotatorWorks_def
      barrierPoll_def PollUntilContextTimeout_def barrierInterval_def
      barrierTimeout_def pollAttempts_Start pollLoop_unfold initialBarrierVars_def
      barrierCondition_def nodesBlock_def servicesBlock_def podsBlock_def logEvent_def
      readyCluster_def clusterWith_def node1Config_def node2_def dnsService_def gwPod_def
      sbAnswers_def checkOVNSBNodeLRSR_def fetchLBNames_def lbExists_def
      stitchedServiceName_def portExists_def doubleQuote_def Let_def)

theorem marker_before_retarget_witness:
  "fst (upgradeHack node1Config 601 False ''zone1'' readyCluster annotatorWorks) ! 8 =
     SetDBAuthCalled OvnNorth
   \<and> (\<exists>j k. j < k \<and> k < 8
        \<and> fst (upgradeHack node1Config 601 False ''zone1'' readyCluster annotatorWorks) ! j =
            SetNodeZoneMigratedCalled ''zone1''
        \<and> fst (upgradeHack node1Config 601 False ''zone1'' readyCluster annotatorWorks) ! k =
            AnnotatorRunCalled)"
proof -
  have h: "8 < length (fst (upgradeHack node1Config 601 False ''zone1'' readyCluster annotatorWorks))
      \<and> fst (upgradeHack node1Config 601 False ''zone1'' readyCluster annotatorWorks) ! 8 =
          SetDBAuthCalled OvnNorth"
    by (simp add: ready_run)
  from marker_before_retarget[of node1Config 601 False "''zone1''" readyCluster annotatorWorks,
      rule_format, OF h] h
  show ?thesis by blast
qed

subsection \<open>The timeout of the barrier\<close>

text \<open>A poll in which every invocation fails and keeps \<open>I\<close>, establishing \<open>R\<close>.\<close>

lemma pollLoop_all_fail:
  assumes "I s"
    and "\<And>j s. k \<le> j \<Longrightarrow> j < k + Suc n \<Longrightarrow> I s \<Longrightarrow>
           \<not> fst (condition j s) \<and> I (snd (condition j s)) \<and> R (snd (condition j s))"
  shows "fst (pollLoop (Suc n) k condition s) = False
       \<and> fst (snd (pollLoop (Suc n) k condition s)) = k + Suc n
       \<and> R (snd (snd (pollLoop (Suc n) k condition s)))"
  using assms
proof (induction n arbitrary: k s)
  case 0
  obtain ok s' where c: "condition k s = (ok, s')" by (cases "condition k s")
  from 0(2)[of k s] 0(1) c have "\<not> ok" "R s'" by simp_all
  with c show ?case by simp
next
  case (Suc n)
  obtain ok s' where c: "condition k s = (ok, s')" by (cases "condition k s")
  from Suc.prems(2)[of k s] Suc.prems(1) c have nok: "\<not> ok" and i: "I s'" by simp_all
  have "fst (pollLoop (Suc n) (Suc k) condition s') = False
       \<and> fst (snd (pollLoop (Suc n) (Suc k) condition s')) = Suc k + Suc n
       \<and> R (snd (snd (pollLoop (Suc n) (Suc k) condition s')))"
  proof (rule Suc.IH[OF i])
    fix j s
    assume "Suc k \<le> j" "j < Suc k + Suc n" "I s"
    then show "\<not> fst (condition j s) \<and> I (snd (condition j s)) \<and> R (snd (condition j s))"
      using Suc.prems(2)[of j s] by simp
  qed
  with c nok show ?case by simp
qed

lemma pollLoop_count_pos: "0 < n \<Longrightarrow> k < fst (snd (pollLoop n k condition s))"
proof (induction n arbitrary: k s)
  case 0
  then show ?case by simp
next
  case (Suc n)
  obtain ok s' where c: "condition k s = (ok, s')" by (cases "condition k s")
  show ?case
  proof (cases "ok \<or> n = 0")
    case True
    with c show ?thesis by auto
  next
    case False
    with Suc.IH[of "Suc k" s'] c show ?thesis by auto
  qed
qed

lemma pollEvents_no_migration:
  assumes "list_all isPollEvent evs"
  shows "(\<forall>z. SetNodeZoneMigratedCalled z \<notin> set evs) \<and> AnnotatorRunCalled \<notin> set evs
       \<and> (\<forall>db. SetDBAuthCalled db \<notin> set evs) \<and> (\<forall>r. ExitCalled r \<notin> set evs)"
  using assms by (auto simp: list_all_iff isPollEvent_def)

text \<open>
  Claim C1, as the code has it. The barrier polls every 500 ms with a timeout of 300
  seconds (5 minutes), not 1800: it makes at least one pass, and the tick of its last
  pass is due no later than 300 seconds after the first pass, whatever the scheduling
  (so there are at most 601 passes). The poll fails exactly when it ends without all
  three readiness predicates recorded; the process then exits through
  \<^verbatim>\<open>klog.Exitf\<close> with the poll's error and \<^verbatim>\<open>err1\<close>, the exit is the last
  event, and neither the marker, nor its persistence, nor the retarget has taken place.
  When the three predicates are recorded in time the exit, if any, is not for a
  timeout.
\<close>

theorem barrier_timeout_300_is_fatal:
  assumes "\<not> cfg_ModeDPUHost cfg" and "cfg_EnableInterconnect cfg"
    and "z \<noteq> cfg_OvnDefaultZone cfg" and "\<not> migrated"
    and "barrierPoll cfg sched env = (ok, n, vars)"
  shows "barrierInterval = 500 * Millisecond \<and> barrierTimeout = 300 * Second
       \<and> Millisecond = 1 \<and> Second = 1000
       \<and> 1 \<le> n \<and> (n - 1) * 500 \<le> 300000
       \<and> ok = (syncNodes vars \<and> syncServices vars \<and> syncPods vars)
       \<and> (\<not> (syncNodes vars \<and> syncServices vars \<and> syncPods vars) \<longrightarrow>
            upgradeHack cfg sched migrated z env a =
              (events vars @
                 [ExitCalled (TimedOutWaitingForRemoteController DeadlineExceeded
                                (barrier_err1 vars))],
               Some (TimedOutWaitingForRemoteController DeadlineExceeded (barrier_err1 vars)))
            \<and> (\<forall>z'. SetNodeZoneMigratedCalled z' \<notin> set (events vars))
            \<and> AnnotatorRunCalled \<notin> set (events vars)
            \<and> (\<forall>db. SetDBAuthCalled db \<notin> set (events vars)))
       \<and> (syncNodes vars \<and> syncServices vars \<and> syncPods vars \<longrightarrow>
            (\<forall>e e1. snd (upgradeHack cfg sched migrated z env a) \<noteq>
                       Some (TimedOutWaitingForRemoteController e e1)))"
proof -
  note p = assms(5)
  from barrierPoll_verdict[of cfg sched env] p have v: "ok = allSynced vars" by simp
  have units: "barrierInterval = 500 * Millisecond \<and> barrierTimeout = 300 * Second
       \<and> Millisecond = 1 \<and> Second = 1000"
    by (simp add: barrierInterval_def barrierTimeout_def Millisecond_def Second_def)
  from barrierPoll_count[of cfg sched env] p
  have "n \<le> pollAttempts barrierInterval barrierTimeout sched" by simp
  also have "\<dots> \<le> 601"
    by (simp add: barrierInterval_def barrierTimeout_def pollAttempts_Start)
  finally have upper: "(n - 1) * 500 \<le> 300000" by simp
  have "0 < pollAttempts barrierInterval barrierTimeout sched"
    using pollAttempts_bounds[of barrierInterval barrierTimeout sched] by simp
  from pollLoop_count_pos[OF this, of 0 "barrierCondition cfg env" initialBarrierVars] p
  have lower: "1 \<le> n" by (simp add: barrierPoll_def PollUntilContextTimeout_def)
  from barrierPoll_pollEvents[of cfg sched env] p
  have pe: "list_all isPollEvent (events vars)" by simp
  have timeout: "upgradeHack cfg sched migrated z env a =
              (events vars @
                 [ExitCalled (TimedOutWaitingForRemoteController DeadlineExceeded
                                (barrier_err1 vars))],
               Some (TimedOutWaitingForRemoteController DeadlineExceeded (barrier_err1 vars)))"
    if "\<not> allSynced vars"
    using that v p assms(1-4) by (simp add: upgradeHack_def)
  have intime: "snd (upgradeHack cfg sched migrated z env a) \<noteq>
                  Some (TimedOutWaitingForRemoteController e e1)" if "allSynced vars" for e e1
  proof -
    obtain evs r where m: "migrateZone a z = (evs, r)" by (cases "migrateZone a z")
    then have "r \<noteq> Some (TimedOutWaitingForRemoteController e e1)"
      by (auto simp: migrateZone_def split: option.splits prod.splits list.splits)
    with that v p assms(1-4) m show ?thesis by (simp add: upgradeHack_def)
  qed
  from units upper lower v timeout intime pollEvents_no_migration[OF pe]
  show ?thesis unfolding allSynced_def by blast
qed

text \<open>One pass over the cluster whose node lister fails.\<close>

lemma lateCluster_pass:
  assumes "j < 1200" and "\<not> syncNodes vars"
  shows "\<not> fst (barrierCondition node1Config lateCluster j vars)
       \<and> \<not> syncNodes (snd (barrierCondition node1Config lateCluster j vars))
       \<and> barrier_err1 (snd (barrierCondition node1Config lateCluster j vars)) =
           Some (ErrorRetrievingNode ''node1'' ''connection refused'')"
  using assms
  by (simp add: barrierCondition_def nodesBlock_def logEvent_def lateCluster_def
      node1Config_def Let_def)

text \<open>Whatever the scheduling, every pass of the poll over that cluster fails.\<close>

lemma lateCluster_poll:
  "fst (barrierPoll node1Config sched lateCluster) = False
   \<and> fst (snd (barrierPoll node1Config sched lateCluster)) =
       pollAttempts barrierInterval barrierTimeout sched
   \<and> barrier_err1 (snd (snd (barrierPoll node1Config sched lateCluster))) =
       Some (ErrorRetrievingNode ''node1'' ''connection refused'')"
proof -
  let ?n = "pollAttempts barrierInterval barrierTimeout sched"
  have le: "?n \<le> 601" by (simp add: barrierInterval_def barrierTimeout_def pollAttempts_Start)
  have "1 \<le> ?n" using pollAttempts_bounds[of barrierInterval barrierTimeout sched] by simp
  then obtain m where m: "?n = Suc m" by (cases ?n) auto
  have "fst (pollLoop (Suc m) 0 (barrierCondition node1Config lateCluster)
               initialBarrierVars) = False
      \<and> fst (snd (pollLoop (Suc m) 0 (barrierCondition node1Config lateCluster)
                     initialBarrierVars)) = 0 + Suc m
      \<and> barrier_err1 (snd (snd (pollLoop (Suc m) 0
                       (barrierCondition node1Config lateCluster) initialBarrierVars))) =
           Some (ErrorRetrievingNode ''node1'' ''connection refused'')"
  proof (rule pollLoop_all_fail[where I = "\<lambda>vars. \<not> syncNodes vars"])
    show "\<not> syncNodes initialBarrierVars" by (simp add: initialBarrierVars_def)
  next
    fix j :: nat and s :: barrier_vars
    assume "j < 0 + Suc m" "\<not> syncNodes s"
    with le m have "j < 1200" "\<not> syncNodes s" by simp_all
    then show "\<not> fst (barrierCondition node1Config lateCluster j s)
       \<and> \<not> syncNodes (snd (barrierCondition node1Config lateCluster j s))
       \<and> barrier_err1 (snd (barrierCondition node1Config lateCluster j s)) =
           Some (ErrorRetrievingNode ''node1'' ''connection refused'')"
      by (rule lateCluster_pass)
  qed
  with m show ?thesis by (simp add: barrierPoll_def PollUntilContextTimeout_def)
qed

lemma lateCluster_exit:
  "snd (upgradeHack node1Config sched False ''zone1'' lateCluster annotatorWorks) =
     Some (TimedOutWaitingForRemoteController DeadlineExceeded
             (Some (ErrorRetrievingNode ''node1'' ''connection refused'')))"
proof -
  obtain ok n vars where p: "barrierPoll node1Config sched lateCluster = (ok, n, vars)"
    by (cases "barrierPoll node1Config sched lateCluster") auto
  with lateCluster_poll[of sched] have r: "ok = False"
    "barrier_err1 vars = Some (ErrorRetrievingNode ''node1'' ''connection refused'')"
    by simp_all
  show ?thesis using p r by (simp add: upgradeHack_def node1Config_def)
qed

text \<open>The node lister fails for 600 seconds and works from then on, with the cluster
  ready: a pass made at 600 seconds, a third of the 1800 the claim gives the barrier,
  finds all three predicates true. The agent has exited long before, on the deadline of
  300 seconds, whether the poll made 601 passes (the last at 300 seconds) or 600.\<close>

theorem barrier_timeout_1800_counterexample:
  "snd (upgradeHack node1Config 601 False ''zone1'' lateCluster annotatorWorks) =
     Some (TimedOutWaitingForRemoteController DeadlineExceeded
             (Some (ErrorRetrievingNode ''node1'' ''connection refused'')))
   \<and> snd (upgradeHack node1Config 600 False ''zone1'' lateCluster annotatorWorks) =
     Some (TimedOutWaitingForRemoteController DeadlineExceeded
             (Some (ErrorRetrievingNode ''node1'' ''connection refused'')))
   \<and> fst (snd (barrierPoll node1Config 601 lateCluster)) = 601
   \<and> (601 - 1) * barrierInterval = 300 * Second
   \<and> fst (barrierCondition node1Config lateCluster 1200 initialBarrierVars)
   \<and> 1200 * barrierInterval = 600 * Second
   \<and> 600 * Second < 1800 * Second"
proof -
  have b: "fst (snd (barrierPoll node1Config 601 lateCluster)) = 601"
    using lateCluster_poll[of 601]
    by (simp add: barrierInterval_def barrierTimeout_def pollAttempts_Start)
  have c: "fst (barrierCondition node1Config lateCluster 1200 initialBarrierVars)"
    by (simp add: initialBarrierVars_def
      barrierCondition_def nodesBlock_def servicesBlock_def podsBlock_def logEvent_def
      lateCluster_def readyCluster_def clusterWith_def node1Config_def node2_def
      dnsService_def gwPod_def
      sbAnswers_def checkOVNSBNodeLRSR_def fetchLBNames_def lbExists_def
      stitchedServiceName_def portExists_def doubleQuote_def Let_def)
  from lateCluster_exit[of 601] lateCluster_exit[of 600] b c show ?thesis
    by (simp add: barrierInterval_def Millisecond_def Second_def)
qed

text \<open>The same run under the theorem: the exit follows the last pass, and nothing of the
  migration has been attempted.\<close>

theorem barrier_timeout_300_is_fatal_witness:
  "\<not> cfg_ModeDPUHost node1Config \<and> cfg_EnableInterconnect node1Config
   \<and> ''zone1'' \<noteq> cfg_OvnDefaultZone node1Config
   \<and> fst (barrierPoll node1Config 601 lateCluster) = False
   \<and> fst (snd (barrierPoll node1Config 601 lateCluster)) = 601
   \<and> \<not> (syncNodes (snd (snd (barrierPoll node1Config 601 lateCluster)))
         \<and> syncServices (snd (snd (barrierPoll node1Config 601 lateCluster)))
         \<and> syncPods (snd (snd (barrierPoll node1Config 601 lateCluster))))
   \<and> upgradeHack node1Config 601 False ''zone1'' lateCluster annotatorWorks =
       (events (snd (snd (barrierPoll node1Config 601 lateCluster))) @
          [ExitCalled (TimedOutWaitingForRemoteController DeadlineExceeded
             (Some (ErrorRetrievingNode ''node1'' ''connection refused'')))],
        Some (TimedOutWaitingForRemoteController DeadlineExceeded
               (Some (ErrorRetrievingNode ''node1'' ''connection refused''))))"
proof -
  obtain ok n vars where p: "barrierPoll node1Config 601 lateCluster = (ok, n, vars)"
    by (cases "barrierPoll node1Config 601 lateCluster") auto
  with lateCluster_poll[of 601] have r: "ok = False" "n = 601"
    "barrier_err1 vars = Some (ErrorRetrievingNode ''node1'' ''connection refused'')"
    by (simp_all add: barrierInterval_def barrierTimeout_def pollAttempts_Start)
  have c: "\<not> cfg_ModeDPUHost node1Config" "cfg_EnableInterconnect node1Config"
    "''zone1'' \<noteq> cfg_OvnDefaultZone node1Config" "\<not> False"
    by (simp_all add: node1Config_def)
  note inst = barrier_timeout_300_is_fatal[OF c p, of annotatorWorks]
  from inst r have n: "\<not> (syncNodes vars \<and> syncServices vars \<and> syncPods vars)" by simp
  from inst[THEN conjunct2, THEN conjunct2, THEN conjunct2, THEN conjunct2, THEN conjunct2,
      THEN conjunct2, THEN conjunct2, THEN conjunct1, THEN mp, OF n] n c p r
  show ?thesis by simp
qed
subsection \<open>The services predicate\<close>

lemma strings_Contains_sublist: "strings_Contains s substr = sublist substr s"
  by (induction s) (simp_all add: sublist_Cons_right)

lemma strings_Contains_iff: "strings_Contains s substr = (\<exists>p q. s = p @ substr @ q)"
  by (simp add: strings_Contains_sublist sublist_def)


text \<open>A field of the split of a string occurs in the string.\<close>

lemma splitOn_sublist:
  "x \<in> set (splitOn sep cur s) \<Longrightarrow> (\<exists>p q. s = p @ q \<and> x = rev cur @ p) \<or> sublist x s"
proof (induction s arbitrary: cur)
  case Nil
  then show ?case by simp
next
  case (Cons c s)
  show ?case
  proof (cases "c = sep")
    case True
    with Cons.prems have "x = rev cur \<or> x \<in> set (splitOn sep [] s)" by simp
    then show ?thesis
    proof
      assume "x = rev cur"
      then have "c # s = [] @ (c # s) \<and> x = rev cur @ []" by simp
      then show ?thesis by blast
    next
      assume "x \<in> set (splitOn sep [] s)"
      from Cons.IH[OF this] have "sublist x s" by (auto simp: sublist_def)
      then show ?thesis by (simp add: sublist_Cons_right)
    qed
  next
    case False
    with Cons.prems have "x \<in> set (splitOn sep (c # cur) s)" by simp
    from Cons.IH[OF this] show ?thesis
    proof
      assume "\<exists>p q. s = p @ q \<and> x = rev (c # cur) @ p"
      then obtain p q where "s = p @ q" "x = rev (c # cur) @ p" by blast
      then have "c # s = (c # p) @ q \<and> x = rev cur @ (c # p)" by simp
      then show ?thesis by blast
    next
      assume "sublist x s"
      then show ?thesis by (simp add: sublist_Cons_right)
    qed
  qed
qed

text \<open>A load balancer whose name is exactly the stitched name is enough for the
  check.\<close>

lemma exact_key_suffices:
  "exactKeyExists lbNames s \<Longrightarrow> lbExists lbNames (svc_Namespace s) (svc_Name s)"
proof -
  assume "exactKeyExists lbNames s"
  then have "stitchedServiceName (svc_Namespace s) (svc_Name s) \<in>
               set (splitOn CHR 0x0A [] lbNames)"
    by (simp add: exactKeyExists_def loadBalancerKeys_def strings_Split_def)
  from splitOn_sublist[OF this]
  have "sublist (stitchedServiceName (svc_Namespace s) (svc_Name s)) lbNames"
    by (auto simp: sublist_def)
  then show ?thesis by (simp add: lbExists_def strings_Contains_sublist)
qed






end
